theory Spec2Isabelle
  imports Main "HOL-Library.Word" "HOL-Library.Sublist"
begin

section \<open>JavaScript strings\<close>

text \<open>
  A JavaScript string is a sequence of UTF-16 code units, so it is modelled as a list of
  16-bit words. \<open>str\<close> turns an ASCII literal of the source into such a list.
\<close>

type_synonym js_string = "16 word list"

definition str :: "string \<Rightarrow> js_string" where
  "str s = map of_char s"

text \<open>
  \<^verbatim>\<open>s.replace(pat, rep)\<close> with a string pattern: only the leftmost occurrence of \<open>pat\<close>
  is replaced; a string without the pattern is returned as it is. (None of the
  replacement strings of the source contains a dollar sign, so no substitution pattern
  is involved.)
\<close>

fun replace_js :: "'a list \<Rightarrow> 'a list \<Rightarrow> 'a list \<Rightarrow> 'a list" where
  "replace_js [] pat rep = (if pat = [] then rep else [])"
| "replace_js (c # cs) pat rep =
     (if prefix pat (c # cs) then rep @ drop (length pat) (c # cs)
      else c # replace_js cs pat rep)"

text \<open>\<^verbatim>\<open>s.includes(pat)\<close>: the pattern occurs at some position of \<open>s\<close>.\<close>

fun includes_js :: "'a list \<Rightarrow> 'a list \<Rightarrow> bool" where
  "includes_js [] pat = (pat = [])"
| "includes_js (c # cs) pat = (prefix pat (c # cs) \<or> includes_js cs pat)"

text \<open>
  The code units that \<^verbatim>\<open>trim()\<close> removes: ECMAScript's WhiteSpace and LineTerminator
  (TAB, LF, VT, FF, CR, SP, NBSP, U+1680, U+2000 to U+200A, LS, PS, U+202F, U+205F,
  U+3000 and the byte order mark).
\<close>

definition isWhiteSpace :: "16 word \<Rightarrow> bool" where
  "isWhiteSpace c = (c \<in> set [0x0009, 0x000A, 0x000B, 0x000C, 0x000D, 0x0020, 0x00A0,
      0x1680, 0x2000, 0x2001, 0x2002, 0x2003, 0x2004, 0x2005, 0x2006, 0x2007, 0x2008,
      0x2009, 0x200A, 0x2028, 0x2029, 0x202F, 0x205F, 0x3000, 0xFEFF])"

definition trim :: "js_string \<Rightarrow> js_string" where
  "trim s = dropWhile isWhiteSpace (rev (dropWhile isWhiteSpace (rev s)))"

text \<open>\<^verbatim>\<open>xs.join(sep)\<close> on an array of strings.\<close>

fun join_js :: "'a list \<Rightarrow> 'a list list \<Rightarrow> 'a list" where
  "join_js sep [] = []"
| "join_js sep [x] = x"
| "join_js sep (x # y # ys) = x @ sep @ join_js sep (y # ys)"

text \<open>\<^verbatim>\<open>n.toString()\<close> for a non-negative integer: its decimal digits.\<close>

fun toString_nat :: "nat \<Rightarrow> js_string" where
  "toString_nat n =
     (if n < 10 then [of_nat (48 + n)]
      else toString_nat (n div 10) @ [of_nat (48 + n mod 10)])"

text \<open>\<^verbatim>\<open>s.padStart(len, fill)\<close>.\<close>

definition padStart :: "js_string \<Rightarrow> nat \<Rightarrow> js_string \<Rightarrow> js_string" where
  "padStart s len fill =
     (if len \<le> length s \<or> fill = [] then s
      else take (len - length s) (concat (replicate (len - length s) fill)) @ s)"

text \<open>
  \<^verbatim>\<open>s.toLowerCase()\<close>, on the ASCII letters. The source only compares the result with
  the ASCII literal \<^verbatim>\<open>"5090 giveaway"\<close>. Outside ASCII, the lower case of a code unit
  contains an ASCII letter only for U+212A (\<^verbatim>\<open>k\<close>) and U+0130 (\<^verbatim>\<open>i\<close> followed by U+0307);
  the literal has neither a \<^verbatim>\<open>k\<close> nor U+0307, so the comparison has the same outcome as
  with the full Unicode mapping.
\<close>

definition toLowerCase :: "js_string \<Rightarrow> js_string" where
  "toLowerCase s = map (\<lambda>c. if 0x41 \<le> c \<and> c \<le> 0x5A then c + 0x20 else c) s"

section \<open>Data model (types.ts)\<close>

record AIInstance =
  inst_id :: js_string
  name :: js_string
  color :: js_string
  borderColor :: js_string
  model :: js_string

record WebSource =
  uri :: js_string
  title :: js_string

record GroundingChunk =
  web :: "WebSource option"

record DialogueEntry =
  authorId :: js_string
  authorName :: js_string
  content :: js_string
  timestamp :: nat
  isHuman :: "bool option"
  grounding :: "GroundingChunk list option"

datatype DeliberationStatus = Idle | Running | Paused | Concluded | Awaiting_approval

section \<open>Constants (constants.ts)\<close>

definition COLORS :: "js_string list" where
  "COLORS = map str
     [''text-red-500'', ''text-orange-500'', ''text-yellow-500'', ''text-green-500'',
      ''text-blue-500'', ''text-purple-500'', ''text-pink-500'', ''text-cyan-500'',
      ''text-emerald-500'', ''text-amber-500'', ''text-indigo-500'', ''text-lime-500'',
      ''text-rose-500'', ''text-teal-500'', ''text-violet-500'', ''text-fuchsia-500'',
      ''text-sky-500'']"

definition potentialInstance :: "nat \<Rightarrow> AIInstance" where
  "potentialInstance i =
     \<lparr> inst_id = toString_nat (i + 1),
       name = str ''INSTANCE_'' @ padStart (toString_nat (i + 1)) 2 (str ''0''),
       color = COLORS ! (i mod length COLORS),
       borderColor = replace_js (COLORS ! (i mod length COLORS)) (str ''text-'') (str ''border-''),
       model = str ''gemini-flash-lite-latest'' \<rparr>"

definition ALL_POTENTIAL_INSTANCES :: "AIInstance list" where
  "ALL_POTENTIAL_INSTANCES = map potentialInstance [0..<50]"

definition SYSTEM_PROMPT_TEMPLATE :: "js_string \<Rightarrow> nat \<Rightarrow> js_string" where
  "SYSTEM_PROMPT_TEMPLATE nm totalCount =
     str ''\<newline>'' @
     str ''You are '' @ nm @ str '', one of '' @ toString_nat totalCount @
     str '' AI instances participating in a high-speed deliberation experiment.\<newline>'' @
     str ''Your goal: Analyze the input topic, build upon or challenge the thoughts of other instances, and move toward the most logical and optimized conclusion.\<newline>'' @
     str ''\<newline>'' @
     str ''RULES:\<newline>'' @
     str ''1. NO ROLEPLAY. Do not adopt a persona. You are a raw large language model.\<newline>'' @
     str ''2. BE CONCISE. Maximum 2 sentences per turn.\<newline>'' @
     str ''3. CONTEXTUAL AWARENESS. Read the history carefully. Address specific points made by previous instances.\<newline>'' @
     str ''4. TERMINATION LOGIC: If you believe the council has reached a definitive and optimized consensus, append '[TERMINATE_DELIBERATION]' to the end of your message. If more refinement is needed, do not include this tag.\<newline>'' @
     str ''5. EVOLVE. Identify logical flaws or gaps in the current consensus and fix them.\<newline>'' @
     str ''6. TOOL USAGE: If a fact, product, or specific data point is missing from your internal database, or if you are performing product finding/market analysis, you MUST use the 'googleSearch' tool to retrieve accurate, real-time information.\<newline>''"

definition SYNTHESIS_PROMPT :: "js_string \<Rightarrow> js_string \<Rightarrow> js_string" where
  "SYNTHESIS_PROMPT topic historyText =
     str ''\<newline>'' @
     str ''Topic: '' @ topic @ str ''\<newline>'' @
     str ''History: '' @ historyText @ str ''\<newline>'' @
     str ''\<newline>'' @
     str ''As the final supervisor instance, synthesize the entire deliberation above into the \"Best Possible Response\". \<newline>'' @
     str ''Be definitive, objective, and comprehensive. Ensure the final result represents the peak of the collective reasoning provided by the instances.\<newline>'' @
     str ''Format: Start with \"FINAL VERDICT:\" followed by the synthesized conclusion.\<newline>''"

section \<open>The remote model endpoint\<close>

text \<open>
  \<^verbatim>\<open>ai.models.generateContent({model, contents, config})\<close> is the one external call of
  the program. A request is what the program sends; the endpoint either throws (with the
  error's message) or answers with an optional text and optional grounding chunks.
  The temperature is kept in tenths (\<open>8\<close> for \<^verbatim>\<open>0.8\<close>, \<open>2\<close> for \<^verbatim>\<open>0.2\<close>).
\<close>

datatype tool = GoogleSearch

record GenerateContentConfig =
  systemInstruction :: "js_string option"
  temperature :: "nat option"
  tools :: "tool list option"

record request =
  req_model :: js_string
  req_contents :: js_string
  req_config :: "GenerateContentConfig option"

datatype api_result =
    Failure js_string
  | Response "js_string option" "GroundingChunk list option"

text \<open>
  The endpoint is not a function of the request alone: the same request may succeed now
  and fail later. \<open>gw k i rq\<close> is what the endpoint does with request \<open>rq\<close> when it is the
  \<open>i\<close>-th call issued while the application is suspended for the \<open>k\<close>-th time.
  Every theorem below holds for all such endpoints.
\<close>

type_synonym gateway = "nat \<Rightarrow> nat \<Rightarrow> request \<Rightarrow> api_result"

type_synonym call = "request \<times> api_result"

datatype js_error = Error js_string | TypeError

text \<open>\<^verbatim>\<open>t || d\<close> for an optional string: \<^verbatim>\<open>undefined\<close> and the empty string are falsy.\<close>

definition text_or :: "js_string option \<Rightarrow> js_string \<Rightarrow> js_string" where
  "text_or t d = (case t of None \<Rightarrow> d | Some x \<Rightarrow> if x = [] then d else x)"

section \<open>The service module with fallback and priority list\<close>

text \<open>
  The repository holds several versions of \<^verbatim>\<open>services/geminiService.ts\<close>. The one embedded
  here (lines 640 to 778 of \<^verbatim>\<open>src/constants.tsx\<close>) is the most complete:
  \<open>getAIResponse\<close> retries on the fallback model and \<open>getFinalSynthesis\<close> walks a
  priority list of models. Each function returns what the caller receives (\<open>Inl\<close> when the
  promise rejects) together with the calls it made to the endpoint, in order.
  Constructing the client (\<^verbatim>\<open>new GoogleGenAI\<close>) only stores the key and is not modelled.
\<close>

record AIResponse =
  resp_text :: js_string
  resp_grounding :: "GroundingChunk list option"

definition promptEngineerTopic ::
  "gateway \<Rightarrow> nat \<Rightarrow> js_string \<Rightarrow> (js_error + js_string) \<times> call list" where
  "promptEngineerTopic gw k rawTopic =
     (let prompt =
        str ''\<newline>'' @
        str ''    You are a professional Prompt Engineer for an AI Governance Council.\<newline>'' @
        str ''    The user provided a raw objective: \"'' @ rawTopic @ str ''\"\<newline>'' @
        str ''    \<newline>'' @
        str ''    Your task is to rewrite this objective into a highly structured, objective, and analytically clear deliberation target for the Council. \<newline>'' @
        str ''    Make it precise, identify key constraints, and set a clear objective for multi-agent reasoning.\<newline>'' @
        str ''    Keep the output concise (max 3 sentences).\<newline>'' @
        str ''    Output ONLY the engineered prompt text.\<newline>'' @
        str ''  '';
          rq = \<lparr> req_model = str ''gemini-3-flash-preview'', req_contents = prompt,
                 req_config = None \<rparr>
      in case gw k 0 rq of
           Response t g \<Rightarrow> (Inr (text_or (map_option trim t) rawTopic), [(rq, Response t g)])
         | Failure msg \<Rightarrow> (Inr rawTopic, [(rq, Failure msg)]))"

definition renderEntry :: "DialogueEntry \<Rightarrow> js_string" where
  "renderEntry h = authorName h @ str '': '' @ content h"

definition FALLBACK_MODEL :: js_string where
  "FALLBACK_MODEL = str ''gemini-flash-lite-latest''"

definition getAIResponse ::
  "gateway \<Rightarrow> nat \<Rightarrow> AIInstance \<Rightarrow> js_string \<Rightarrow> DialogueEntry list \<Rightarrow> nat
     \<Rightarrow> (js_error + AIResponse) \<times> call list" where
  "getAIResponse gw k instance topic history totalInstances =
     (let historyText =
            (if length history > 0 then join_js (str ''\<newline>'') (map renderEntry history)
             else str ''The deliberation session is just beginning. Provide an opening thesis for the objective.'');
          prompt =
            str ''\<newline>'' @
            str ''    Strategic Objective: '' @ topic @ str ''\<newline>'' @
            str ''    Council History:\<newline>'' @
            str ''    '' @ historyText @ str ''\<newline>'' @
            str ''    \<newline>'' @
            str ''    Instruction: Provide your analytical contribution as '' @ name instance @
            str ''. If you believe a logical consensus has been reached, add [TERMINATE_DELIBERATION].\<newline>'' @
            str ''  '';
          config = \<lparr> systemInstruction = Some (SYSTEM_PROMPT_TEMPLATE (name instance) totalInstances),
                     temperature = Some 8,
                     tools = Some [GoogleSearch] \<rparr>;
          primary = \<lparr> req_model = model instance, req_contents = prompt,
                      req_config = Some config \<rparr>
      in case gw k 0 primary of
           Response t g \<Rightarrow>
             (Inr \<lparr> resp_text = text_or t (str ''No analytical response generated.''),
                    resp_grounding = g \<rparr>,
              [(primary, Response t g)])
         | Failure msg \<Rightarrow>
             if model instance \<noteq> FALLBACK_MODEL then
               (let fallback = \<lparr> req_model = FALLBACK_MODEL, req_contents = prompt,
                                  req_config = Some (config \<lparr> tools := Some [] \<rparr>) \<rparr>
                in case gw k 1 fallback of
                     Response t g \<Rightarrow>
                       (Inr \<lparr> resp_text = text_or t (str ''Node fallback failed.'')
                                            @ str '' (Fallback Node Protocol)'',
                              resp_grounding = None \<rparr>,
                        [(primary, Failure msg), (fallback, Response t g)])
                   | Failure msg' \<Rightarrow>
                       (Inr \<lparr> resp_text = str ''Protocol failure on node: '' @ name instance,
                              resp_grounding = None \<rparr>,
                        [(primary, Failure msg), (fallback, Failure msg')]))
             else
               (Inr \<lparr> resp_text = str ''Error: Communication link severed for node ''
                                    @ name instance,
                      resp_grounding = None \<rparr>,
                [(primary, Failure msg)]))"

text \<open>
  The \<^verbatim>\<open>for (const modelId of SYNTHESIS_PRIORITY_LIST)\<close> loop of \<open>getFinalSynthesis\<close>:
  \<open>i\<close> counts the attempts already made. A candidate that throws, or whose text is
  missing or empty, is passed over; when the list is exhausted the function throws.
\<close>

fun synthesisAttempts ::
  "gateway \<Rightarrow> nat \<Rightarrow> nat \<Rightarrow> js_string \<Rightarrow> js_string list
     \<Rightarrow> (js_error + js_string \<times> js_string) \<times> call list" where
  "synthesisAttempts gw k i prompt [] =
     (Inl (Error (str ''All available synthesis models failed to respond.'')), [])"
| "synthesisAttempts gw k i prompt (modelId # rest) =
     (let rq = \<lparr> req_model = modelId, req_contents = prompt,
                 req_config = Some \<lparr> systemInstruction = None, temperature = Some 2,
                                     tools = None \<rparr> \<rparr>;
          res = gw k i rq;
          tryNext = (let (r, calls) = synthesisAttempts gw k (i + 1) prompt rest
                     in (r, (rq, res) # calls))
      in case res of
           Response (Some t) g \<Rightarrow>
             if t \<noteq> [] then (Inr (t, modelId), [(rq, res)]) else tryNext
         | Response None g \<Rightarrow> tryNext
         | Failure msg \<Rightarrow> tryNext)"

text \<open>
  \<open>SYNTHESIS_PRIORITY_LIST\<close> is imported from the constants module but not declared in
  the version of that module at hand, so it is a parameter here.
\<close>

definition getFinalSynthesis ::
  "gateway \<Rightarrow> js_string list \<Rightarrow> nat \<Rightarrow> js_string \<Rightarrow> DialogueEntry list
     \<Rightarrow> (js_error + js_string \<times> js_string) \<times> call list" where
  "getFinalSynthesis gw SYNTHESIS_PRIORITY_LIST k topic history =
     (let historyText = join_js (str ''\<newline>\<newline>'') (map renderEntry history);
          prompt = SYNTHESIS_PROMPT topic historyText
      in synthesisAttempts gw k 0 prompt SYNTHESIS_PRIORITY_LIST)"

section \<open>The application (App.tsx)\<close>

text \<open>
  What \<open>App\<close> imports from the service module, as a record of functions, so that the
  properties of the orchestrator hold for every version of the module. Each function
  receives the number of suspensions so far and returns the outcome of the promise
  (\<open>Inl\<close>: rejected) with the endpoint calls made meanwhile. \<open>date_now\<close> is
  \<^verbatim>\<open>Date.now()\<close>, read after that many suspensions.

  \<open>finalizeSynthesis\<close> stores what \<open>getFinalSynthesis\<close> resolves to in the state variable
  \<open>verdict\<close> as it is (\<^verbatim>\<open>setVerdict(finalResult)\<close>). The variable is declared
  \<^verbatim>\<open>string | null\<close>; the versions of the module resolve to a string (\<open>Plain\<close>) or to an
  object \<^verbatim>\<open>{text, modelId}\<close> (\<open>Result\<close>), so a verdict is either.
\<close>

datatype verdict_value = Plain js_string | Result js_string js_string

record env =
  svc_promptEngineerTopic :: "nat \<Rightarrow> js_string \<Rightarrow> (js_error + js_string) \<times> call list"
  svc_getAIResponse ::
    "nat \<Rightarrow> AIInstance \<Rightarrow> js_string \<Rightarrow> DialogueEntry list \<Rightarrow> nat
       \<Rightarrow> (js_error + AIResponse) \<times> call list"
  svc_getFinalSynthesis ::
    "nat \<Rightarrow> js_string \<Rightarrow> DialogueEntry list \<Rightarrow> js_string
       \<Rightarrow> (js_error + verdict_value) \<times> call list"
  date_now :: "nat \<Rightarrow> nat"

text \<open>
  The module of the previous section as such a record. \<open>finalizeSynthesis\<close> passes a
  third argument, the synthesis model, which this version of \<open>getFinalSynthesis\<close>
  ignores; what it resolves to is the object \<^verbatim>\<open>{text, modelId}\<close>.
\<close>

definition geminiService :: "gateway \<Rightarrow> js_string list \<Rightarrow> (nat \<Rightarrow> nat) \<Rightarrow> env" where
  "geminiService gw SYNTHESIS_PRIORITY_LIST clock =
     \<lparr> svc_promptEngineerTopic = promptEngineerTopic gw,
       svc_getAIResponse = getAIResponse gw,
       svc_getFinalSynthesis =
         (\<lambda>k topic history modelId.
            case getFinalSynthesis gw SYNTHESIS_PRIORITY_LIST k topic history of
              (r, calls) \<Rightarrow> (map_sum (\<lambda>e. e) (\<lambda>(t, m). Result t m) r, calls)),
       date_now = clock \<rparr>"

text \<open>
  The program is asynchronous and single-threaded: an observer sees its state only while
  it is suspended in an \<^verbatim>\<open>await\<close>. A \<open>point\<close> records one suspension: which await it is,
  the endpoint calls made during it, and the state the presentation layer sees meanwhile.
\<close>

datatype phase = Engineering | Deliberation | Pacing | Synthesis

record point =
  pt_phase :: phase
  pt_calls :: "call list"
  pt_status :: DeliberationStatus
  pt_isEngineering :: bool
  pt_activeInstanceId :: "js_string option"
  pt_verdict :: "verdict_value option"
  pt_turnCount :: nat
  pt_entries :: nat

text \<open>
  The state of \<open>App\<close>: the React state variables and refs that the four functions
  below read or write. \<open>trace\<close> and \<open>rawTexts\<close> are not program variables: the first
  lists the suspensions so far, the second the \<^verbatim>\<open>text\<close> that \<open>getAIResponse\<close> returned
  in each completed turn of the current session (it is emptied where the transcript is).
\<close>

record app =
  topicInput :: js_string
  topic :: js_string
  history :: "DialogueEntry list"
  status :: DeliberationStatus
  activeInstanceId :: "js_string option"
  verdict :: "verdict_value option"
  instanceCount :: nat
  instances :: "AIInstance list"
  synthesisModel :: js_string
  isDevMenuOpen :: bool
  isEngineering :: bool
  isRunningRef :: bool
  currentHistoryRef :: "DialogueEntry list"
  turnCountRef :: nat
  optimizedTopicRef :: js_string
  trace :: "point list"
  rawTexts :: "js_string list"

definition initial :: app where
  "initial =
     \<lparr> topicInput = [], topic = [], history = [], status = Idle, activeInstanceId = None,
       verdict = None, instanceCount = 6, instances = ALL_POTENTIAL_INSTANCES,
       synthesisModel = str ''gemini-3-pro-preview'', isDevMenuOpen = False,
       isEngineering = False, isRunningRef = False, currentHistoryRef = [],
       turnCountRef = 0, optimizedTopicRef = [], trace = [], rawTexts = [] \<rparr>"

definition observe :: "phase \<Rightarrow> call list \<Rightarrow> app \<Rightarrow> point" where
  "observe ph calls s =
     \<lparr> pt_phase = ph, pt_calls = calls, pt_status = status s,
       pt_isEngineering = isEngineering s, pt_activeInstanceId = activeInstanceId s,
       pt_verdict = verdict s, pt_turnCount = turnCountRef s,
       pt_entries = length (currentHistoryRef s) \<rparr>"

definition suspend :: "phase \<Rightarrow> call list \<Rightarrow> app \<Rightarrow> app" where
  "suspend ph calls s = s \<lparr> trace := trace s @ [observe ph calls s] \<rparr>"

definition terminateSignal :: js_string where
  "terminateSignal = str ''[TERMINATE_DELIBERATION]''"

text \<open>\<^verbatim>\<open>text.replace(terminateSignal, "").trim()\<close>, the content stored for a turn.\<close>

definition cleanResponse :: "js_string \<Rightarrow> js_string" where
  "cleanResponse text = trim (replace_js text terminateSignal [])"

definition SYNT :: js_string where
  "SYNT = str ''SYNT''"

definition finalizeSynthesis :: "env \<Rightarrow> js_string \<Rightarrow> app \<Rightarrow> app" where
  "finalizeSynthesis d synthModel s =
     (let s1 = s \<lparr> status := Running \<rparr>;
          s2 = s1 \<lparr> activeInstanceId := Some SYNT \<rparr>;
          (r, calls) = svc_getFinalSynthesis d (length (trace s2)) (optimizedTopicRef s2)
                         (currentHistoryRef s2) synthModel;
          s3 = suspend Synthesis calls s2;
          s4 = (case r of
                  Inr finalResult \<Rightarrow> s3 \<lparr> verdict := Some finalResult, status := Concluded \<rparr>
                | Inl e \<Rightarrow>
                    s3 \<lparr> verdict := Some (Plain (str ''Critical error during synthesis phase.'')),
                         status := Concluded \<rparr>)
      in s4 \<lparr> activeInstanceId := None, isRunningRef := False \<rparr>)"

text \<open>
  \<^verbatim>\<open>activeInstances[turnCount % instanceCount]\<close>: with a zero count the index is
  \<^verbatim>\<open>NaN\<close>, and beyond the array the element is \<^verbatim>\<open>undefined\<close>.
\<close>

definition activeAt :: "AIInstance list \<Rightarrow> nat \<Rightarrow> nat \<Rightarrow> AIInstance option" where
  "activeAt activeInstances n t =
     (if n = 0 then None
      else if t mod n < length activeInstances then Some (activeInstances ! (t mod n))
      else None)"

definition MAX_TURNS :: "nat \<Rightarrow> nat" where
  "MAX_TURNS n = max (n * 2) 20"

text \<open>The object literal \<open>newEntry\<close> of a turn; \<open>k\<close> is the index at which the clock is read.\<close>

definition newEntry :: "env \<Rightarrow> AIInstance \<Rightarrow> AIResponse \<Rightarrow> nat \<Rightarrow> DialogueEntry" where
  "newEntry d instance response k =
     \<lparr> authorId = inst_id instance, authorName = name instance,
       content = cleanResponse (resp_text response), timestamp = date_now d k,
       isHuman = None, grounding = resp_grounding response \<rparr>"

text \<open>
  One iteration of the \<^verbatim>\<open>while\<close> loop, up to the increment of the turn counter. The
  result is the new state with the raw text of the response, or the error that the
  \<^verbatim>\<open>catch\<close> of \<open>loop\<close> receives.
\<close>

definition turn :: "env \<Rightarrow> nat \<Rightarrow> AIInstance \<Rightarrow> app \<Rightarrow> js_error \<times> app + app \<times> js_string" where
  "turn d n instance s =
     (let s1 = s \<lparr> activeInstanceId := Some (inst_id instance) \<rparr>;
          (r, calls) = svc_getAIResponse d (length (trace s1)) instance (optimizedTopicRef s1)
                         (currentHistoryRef s1) n;
          s2 = suspend Deliberation calls s1
      in case r of
           Inl e \<Rightarrow> Inl (e, s2)
         | Inr response \<Rightarrow>
             (let text = resp_text response;
                  entry = newEntry d instance response (length (trace s2));
                  s3 = s2 \<lparr> currentHistoryRef := currentHistoryRef s2 @ [entry] \<rparr>;
                  s4 = s3 \<lparr> history := currentHistoryRef s3 \<rparr>;
                  s5 = s4 \<lparr> turnCountRef := turnCountRef s4 + 1,
                            rawTexts := rawTexts s4 @ [text] \<rparr>
              in Inr (s5, text)))"

text \<open>
  The \<^verbatim>\<open>while (turnCountRef.current < MAX_TURNS)\<close> statement of \<open>loop\<close>. \<open>n\<close> and
  \<open>activeInstances\<close> are the values of \<open>instanceCount\<close> and
  \<^verbatim>\<open>instances.slice(0, instanceCount)\<close> that the closure captured when the session
  started. \<open>Inl\<close>: an exception left the loop.
\<close>

function loop_while :: "env \<Rightarrow> nat \<Rightarrow> AIInstance list \<Rightarrow> app \<Rightarrow> js_error \<times> app + app" where
  "loop_while d n activeInstances s =
     (if turnCountRef s < MAX_TURNS n then
        (case activeAt activeInstances n (turnCountRef s) of
           None \<Rightarrow> Inl (TypeError, s)
         | Some instance \<Rightarrow>
             (case turn d n instance s of
                Inl es \<Rightarrow> Inl es
              | Inr (s', text) \<Rightarrow>
                  if includes_js text terminateSignal then Inr s'
                  else loop_while d n activeInstances (suspend Pacing [] s')))
      else Inr s)"
  by pat_completeness auto
termination
  by (relation "measure (\<lambda>(d, n, activeInstances, s). MAX_TURNS n - turnCountRef s)")
     (auto simp: turn_def suspend_def Let_def split: prod.splits sum.splits)

definition loop :: "env \<Rightarrow> nat \<Rightarrow> AIInstance list \<Rightarrow> js_string \<Rightarrow> app \<Rightarrow> app" where
  "loop d n activeInstances synthModel s =
     (case loop_while d n activeInstances s of
        Inr s' \<Rightarrow> finalizeSynthesis d synthModel s'
      | Inl (err, s') \<Rightarrow> s' \<lparr> status := Idle, isRunningRef := False \<rparr>)"

text \<open>
  \<open>runExperiment\<close>. When the promise of \<open>promptEngineerTopic\<close> rejects, nothing after
  the \<^verbatim>\<open>await\<close> runs: no handler surrounds it.
\<close>

definition runExperiment :: "env \<Rightarrow> app \<Rightarrow> app" where
  "runExperiment d s =
     (if isRunningRef s \<or> trim (topicInput s) = [] then s
      else if toLowerCase (trim (topicInput s)) = str ''5090 giveaway''
      then s \<lparr> topicInput := [], isDevMenuOpen := True \<rparr>
      else
        (let s1 = s \<lparr> isRunningRef := True, verdict := None, history := [],
                      currentHistoryRef := [], rawTexts := [], turnCountRef := 0,
                      status := Running, topic := topicInput s \<rparr>;
             capturedTopic = topicInput s;
             s2 = s1 \<lparr> topicInput := [], isEngineering := True \<rparr>;
             (r, calls) = svc_promptEngineerTopic d (length (trace s2)) capturedTopic;
             s3 = suspend Engineering calls s2
         in case r of
              Inl e \<Rightarrow> s3
            | Inr optimized \<Rightarrow>
                loop d (instanceCount s) (take (instanceCount s) (instances s))
                  (synthesisModel s)
                  (s3 \<lparr> optimizedTopicRef := optimized, isEngineering := False \<rparr>)))"

definition resetExperiment :: "app \<Rightarrow> app" where
  "resetExperiment s =
     s \<lparr> history := [], currentHistoryRef := [], rawTexts := [], turnCountRef := 0,
         verdict := None, status := Idle, topic := [], activeInstanceId := None,
         isRunningRef := False \<rparr>"

definition handleInstanceModelChange :: "js_string \<Rightarrow> js_string \<Rightarrow> app \<Rightarrow> app" where
  "handleInstanceModelChange i modelId s =
     s \<lparr> instances := map (\<lambda>inst. if inst_id inst = i then inst \<lparr> model := modelId \<rparr> else inst)
                           (instances s) \<rparr>"

section \<open>Suspensions and events\<close>

text \<open>
  Each \<^verbatim>\<open>await\<close> of the functions above suspends the activation that executes it, and
  until its promise settles the event loop runs whatever comes first: an action of the
  user, or the continuation of another suspended activation. State variables and refs
  are shared, so a continuation may find them changed. The definitions of the previous
  section run one activation from its start to its end with nothing in between; this
  section splits the same code at its awaits.

  A \<open>closure\<close> is what an activation of \<open>runExperiment\<close> captured from the render in
  which it was called: \<open>instanceCount\<close>, \<open>activeInstances\<close> and \<open>synthesisModel\<close>.
  \<open>cl_origin\<close> is not a program variable: the number of suspensions before the
  activation started. A \<open>pending\<close> activation is suspended in one of the four awaits,
  with the outcome that its promise will settle to.
\<close>

record closure =
  cl_instanceCount :: nat
  cl_activeInstances :: "AIInstance list"
  cl_synthesisModel :: js_string
  cl_origin :: nat

datatype pending =
    Refining closure "js_error + js_string"
  | Responding closure AIInstance "js_error + AIResponse"
  | Pausing closure
  | Synthesising closure "js_error + verdict_value"

fun closure_of :: "pending \<Rightarrow> closure" where
  "closure_of (Refining c r) = c"
| "closure_of (Responding c instance r) = c"
| "closure_of (Pausing c) = c"
| "closure_of (Synthesising c r) = c"

fun awaited :: "pending \<Rightarrow> phase" where
  "awaited (Refining c r) = Engineering"
| "awaited (Responding c instance r) = Deliberation"
| "awaited (Pausing c) = Pacing"
| "awaited (Synthesising c r) = Synthesis"

text \<open>\<open>finalizeSynthesis\<close> up to its \<^verbatim>\<open>await\<close>, and from there to its end.\<close>

definition finalizeSynthesis_call :: "env \<Rightarrow> closure \<Rightarrow> app \<Rightarrow> app \<times> pending option" where
  "finalizeSynthesis_call d c s =
     (let s1 = s \<lparr> status := Running \<rparr>;
          s2 = s1 \<lparr> activeInstanceId := Some SYNT \<rparr>;
          (r, calls) = svc_getFinalSynthesis d (length (trace s2)) (optimizedTopicRef s2)
                         (currentHistoryRef s2) (cl_synthesisModel c)
      in (suspend Synthesis calls s2, Some (Synthesising c r)))"

definition finalizeSynthesis_return :: "js_error + verdict_value \<Rightarrow> app \<Rightarrow> app" where
  "finalizeSynthesis_return r s =
     (let s4 = (case r of
                  Inr finalResult \<Rightarrow> s \<lparr> verdict := Some finalResult, status := Concluded \<rparr>
                | Inl e \<Rightarrow>
                    s \<lparr> verdict := Some (Plain (str ''Critical error during synthesis phase.'')),
                        status := Concluded \<rparr>)
      in s4 \<lparr> activeInstanceId := None, isRunningRef := False \<rparr>)"

text \<open>The \<^verbatim>\<open>catch\<close> block of \<open>loop\<close>.\<close>

definition loop_catch :: "app \<Rightarrow> app" where
  "loop_catch s = s \<lparr> status := Idle, isRunningRef := False \<rparr>"

text \<open>
  \<open>loop\<close> from the test of the \<^verbatim>\<open>while\<close> statement to the next \<^verbatim>\<open>await\<close>: that of
  \<open>getAIResponse\<close>, or past the loop that of \<open>finalizeSynthesis\<close>.
\<close>

definition loop_test :: "env \<Rightarrow> closure \<Rightarrow> app \<Rightarrow> app \<times> pending option" where
  "loop_test d c s =
     (if turnCountRef s < MAX_TURNS (cl_instanceCount c) then
        (case activeAt (cl_activeInstances c) (cl_instanceCount c) (turnCountRef s) of
           None \<Rightarrow> (loop_catch s, None)
         | Some instance \<Rightarrow>
             (let s1 = s \<lparr> activeInstanceId := Some (inst_id instance) \<rparr>;
                  (r, calls) = svc_getAIResponse d (length (trace s1)) instance
                                 (optimizedTopicRef s1) (currentHistoryRef s1)
                                 (cl_instanceCount c)
              in (suspend Deliberation calls s1, Some (Responding c instance r))))
      else finalizeSynthesis_call d c s)"

text \<open>
  \<open>loop\<close> from the settlement of \<open>getAIResponse\<close> to the next \<^verbatim>\<open>await\<close>: the pause after
  the turn, or after \<^verbatim>\<open>break\<close> that of \<open>finalizeSynthesis\<close>. Transcript and counter are
  read here, after the await.
\<close>

definition loop_return ::
  "env \<Rightarrow> closure \<Rightarrow> AIInstance \<Rightarrow> js_error + AIResponse \<Rightarrow> app \<Rightarrow> app \<times> pending option" where
  "loop_return d c instance r s =
     (case r of
        Inl e \<Rightarrow> (loop_catch s, None)
      | Inr response \<Rightarrow>
          (let text = resp_text response;
               entry = newEntry d instance response (length (trace s));
               s3 = s \<lparr> currentHistoryRef := currentHistoryRef s @ [entry] \<rparr>;
               s4 = s3 \<lparr> history := currentHistoryRef s3 \<rparr>;
               s5 = s4 \<lparr> turnCountRef := turnCountRef s4 + 1,
                         rawTexts := rawTexts s4 @ [text] \<rparr>
           in if includes_js text terminateSignal then finalizeSynthesis_call d c s5
              else (suspend Pacing [] s5, Some (Pausing c))))"

text \<open>\<open>runExperiment\<close> up to its \<^verbatim>\<open>await\<close>.\<close>

definition runExperiment_call :: "env \<Rightarrow> app \<Rightarrow> app \<times> pending option" where
  "runExperiment_call d s =
     (if isRunningRef s \<or> trim (topicInput s) = [] then (s, None)
      else if toLowerCase (trim (topicInput s)) = str ''5090 giveaway''
      then (s \<lparr> topicInput := [], isDevMenuOpen := True \<rparr>, None)
      else
        (let s1 = s \<lparr> isRunningRef := True, verdict := None, history := [],
                      currentHistoryRef := [], rawTexts := [], turnCountRef := 0,
                      status := Running, topic := topicInput s \<rparr>;
             capturedTopic = topicInput s;
             s2 = s1 \<lparr> topicInput := [], isEngineering := True \<rparr>;
             (r, calls) = svc_promptEngineerTopic d (length (trace s2)) capturedTopic
         in (suspend Engineering calls s2,
             Some (Refining \<lparr> cl_instanceCount = instanceCount s,
                              cl_activeInstances = take (instanceCount s) (instances s),
                              cl_synthesisModel = synthesisModel s,
                              cl_origin = length (trace s) \<rparr> r))))"

text \<open>
  The continuation of a pending activation, to its next \<^verbatim>\<open>await\<close> or to its end. A
  rejected refinement ends the activation of \<open>runExperiment\<close> where it is.
\<close>

fun resume :: "env \<Rightarrow> pending \<Rightarrow> app \<Rightarrow> app \<times> pending option" where
  "resume d (Refining c r) s =
     (case r of
        Inl e \<Rightarrow> (s, None)
      | Inr optimized \<Rightarrow> loop_test d c (s \<lparr> optimizedTopicRef := optimized, isEngineering := False \<rparr>))"
| "resume d (Responding c instance r) s = loop_return d c instance r s"
| "resume d (Pausing c) s = loop_test d c s"
| "resume d (Synthesising c r) s = (finalizeSynthesis_return r s, None)"

text \<open>
  What can happen next: the user types a topic, moves the council-size slider (which
  offers 2 to 20), assigns a model to an instance or to the synthesis, submits the topic,
  or resets (buttons that are never disabled); or the promise of the \<open>i\<close>-th pending
  activation settles and the activation continues. The system is the state of \<open>App\<close>
  with the pending activations, oldest first.
\<close>

datatype event =
    SetTopicInput js_string
  | SetInstanceCount nat
  | HandleInstanceModelChange js_string js_string
  | SetSynthesisModel js_string
  | RunExperiment
  | ResetExperiment
  | Settle nat

type_synonym system = "app \<times> pending list"

fun step :: "env \<Rightarrow> event \<Rightarrow> system \<Rightarrow> system" where
  "step d (SetTopicInput v) (s, ps) = (s \<lparr> topicInput := v \<rparr>, ps)"
| "step d (SetInstanceCount n) (s, ps) =
     (if 2 \<le> n \<and> n \<le> 20 then s \<lparr> instanceCount := n \<rparr> else s, ps)"
| "step d (HandleInstanceModelChange i modelId) (s, ps) = (handleInstanceModelChange i modelId s, ps)"
| "step d (SetSynthesisModel modelId) (s, ps) = (s \<lparr> synthesisModel := modelId \<rparr>, ps)"
| "step d RunExperiment (s, ps) =
     (case runExperiment_call d s of
        (s', None) \<Rightarrow> (s', ps)
      | (s', Some p) \<Rightarrow> (s', ps @ [p]))"
| "step d ResetExperiment (s, ps) = (resetExperiment s, ps)"
| "step d (Settle i) (s, ps) =
     (if i < length ps then
        (case resume d (ps ! i) s of
           (s', None) \<Rightarrow> (s', take i ps @ drop (Suc i) ps)
         | (s', Some p) \<Rightarrow> (s', ps[i := p]))
      else (s, ps))"

text \<open>A schedule is a list of events; \<open>run\<close> is the system after it.\<close>

definition run :: "env \<Rightarrow> event list \<Rightarrow> system \<Rightarrow> system" where
  "run d es sys = fold (step d) es sys"


text \<open>
  A schedule is orderly when the user resets only while no activation is pending. A
  session of an orderly schedule is not interrupted: \<open>runExperiment\<close> itself refuses to
  start while the running flag is up.
\<close>

fun orderly :: "env \<Rightarrow> event list \<Rightarrow> system \<Rightarrow> bool" where
  "orderly d [] sys = True"
| "orderly d (e # es) sys = ((e \<noteq> ResetExperiment \<or> snd sys = []) \<and> orderly d es (step d e sys))"

section \<open>Notions for stating the properties\<close>

text \<open>
  A session is one call of \<open>runExperiment\<close> that passes its guards. \<open>engineering\<close> is
  the state in which it awaits the refinement of the topic, \<open>refinement\<close> the outcome of
  that await, and \<open>deliberating\<close> the state in which \<open>loop\<close> then starts.
\<close>

definition starts :: "app \<Rightarrow> bool" where
  "starts s \<longleftrightarrow> \<not> isRunningRef s \<and> trim (topicInput s) \<noteq> [] \<and>
     toLowerCase (trim (topicInput s)) \<noteq> str ''5090 giveaway''"

definition engineering :: "app \<Rightarrow> app" where
  "engineering s =
     s \<lparr> isRunningRef := True, verdict := None, history := [], currentHistoryRef := [],
         rawTexts := [], turnCountRef := 0, status := Running, topic := topicInput s,
         topicInput := [], isEngineering := True \<rparr>"

definition refinement :: "env \<Rightarrow> app \<Rightarrow> (js_error + js_string) \<times> call list" where
  "refinement d s = svc_promptEngineerTopic d (length (trace s)) (topicInput s)"

definition deliberating :: "env \<Rightarrow> app \<Rightarrow> js_string \<Rightarrow> app" where
  "deliberating d s optimized =
     (suspend Engineering (snd (refinement d s)) (engineering s))
       \<lparr> optimizedTopicRef := optimized, isEngineering := False \<rparr>"

text \<open>The outcome of the await in \<open>finalizeSynthesis\<close>.\<close>

definition synthesisOutcome ::
  "env \<Rightarrow> js_string \<Rightarrow> app \<Rightarrow> (js_error + verdict_value) \<times> call list" where
  "synthesisOutcome d synthModel s =
     svc_getFinalSynthesis d (length (trace s)) (optimizedTopicRef s) (currentHistoryRef s)
       synthModel"

text \<open>The state in which the \<^verbatim>\<open>while\<close> statement is left, normally or by an exception.\<close>

definition final :: "js_error \<times> app + app \<Rightarrow> app" where
  "final r = (case r of Inl (e, s) \<Rightarrow> s | Inr s \<Rightarrow> s)"

text \<open>
  The suspensions of a session: those that \<open>r\<close> has after \<open>s\<close>; and how many of them are
  in a given phase.
\<close>

definition session_points :: "app \<Rightarrow> app \<Rightarrow> point list" where
  "session_points s r = drop (length (trace s)) (trace r)"


text \<open>A service that always answers, and never with the termination token.\<close>

definition quiet :: "env \<Rightarrow> bool" where
  "quiet d \<longleftrightarrow>
     (\<forall>k t. \<exists>opt calls. svc_promptEngineerTopic d k t = (Inr opt, calls)) \<and>
     (\<forall>k inst t h n. \<exists>resp calls. svc_getAIResponse d k inst t h n = (Inr resp, calls)
         \<and> \<not> includes_js (resp_text resp) terminateSignal)"

text \<open>
  The requests of a turn, named: the prompt and the configuration that \<open>getAIResponse\<close>
  builds, the request it sends first, and the one it sends to the fallback model.
\<close>

definition turnPrompt :: "AIInstance \<Rightarrow> js_string \<Rightarrow> DialogueEntry list \<Rightarrow> js_string" where
  "turnPrompt instance tp hist =
     str ''\<newline>'' @
     str ''    Strategic Objective: '' @ tp @ str ''\<newline>'' @
     str ''    Council History:\<newline>'' @
     str ''    '' @
     (if length hist > 0 then join_js (str ''\<newline>'') (map renderEntry hist)
      else str ''The deliberation session is just beginning. Provide an opening thesis for the objective.'') @
     str ''\<newline>'' @
     str ''    \<newline>'' @
     str ''    Instruction: Provide your analytical contribution as '' @ name instance @
     str ''. If you believe a logical consensus has been reached, add [TERMINATE_DELIBERATION].\<newline>'' @
     str ''  ''"

definition turnConfig :: "AIInstance \<Rightarrow> nat \<Rightarrow> GenerateContentConfig" where
  "turnConfig instance totalInstances =
     \<lparr> systemInstruction = Some (SYSTEM_PROMPT_TEMPLATE (name instance) totalInstances),
       temperature = Some 8,
       tools = Some [GoogleSearch] \<rparr>"

definition primaryRequest :: "AIInstance \<Rightarrow> js_string \<Rightarrow> DialogueEntry list \<Rightarrow> nat \<Rightarrow> request" where
  "primaryRequest instance tp hist totalInstances =
     \<lparr> req_model = model instance, req_contents = turnPrompt instance tp hist,
       req_config = Some (turnConfig instance totalInstances) \<rparr>"

definition fallbackRequest :: "AIInstance \<Rightarrow> js_string \<Rightarrow> DialogueEntry list \<Rightarrow> nat \<Rightarrow> request" where
  "fallbackRequest instance tp hist totalInstances =
     \<lparr> req_model = FALLBACK_MODEL, req_contents = turnPrompt instance tp hist,
       req_config = Some ((turnConfig instance totalInstances) \<lparr> tools := Some [] \<rparr>) \<rparr>"

text \<open>
  The request that \<open>getFinalSynthesis\<close> sends to a candidate model, and the test it
  applies to the answer (\<^verbatim>\<open>response && response.text\<close>).
\<close>

definition synthesisRequest :: "js_string \<Rightarrow> js_string \<Rightarrow> request" where
  "synthesisRequest modelId prompt =
     \<lparr> req_model = modelId, req_contents = prompt,
       req_config = Some \<lparr> systemInstruction = None, temperature = Some 2, tools = None \<rparr> \<rparr>"

definition hasText :: "api_result \<Rightarrow> bool" where
  "hasText res = (case res of Response (Some t) g \<Rightarrow> t \<noteq> [] | _ \<Rightarrow> False)"

section \<open>Invariants of the loop\<close>


definition extends :: "point list \<Rightarrow> (point \<Rightarrow> bool) \<Rightarrow> app \<Rightarrow> bool" where
  "extends tr P s \<longleftrightarrow> (\<exists>ps. trace s = tr @ ps \<and> (\<forall>p\<in>set ps. P p))"

text \<open>
  What is observed while a turn is in flight (\<open>Deliberation\<close>) and in the pause after it
  (\<open>Pacing\<close>): the session is running, the transcript is as long as the turn counter
  says, and the active instance is the one the counter selects.
\<close>

definition turn_point :: "nat \<Rightarrow> AIInstance list \<Rightarrow> point \<Rightarrow> bool" where
  "turn_point n roster p \<longleftrightarrow>
     pt_status p = Running \<and> \<not> pt_isEngineering p \<and>
     pt_verdict p = None \<and> pt_entries p = pt_turnCount p \<and>
     (pt_phase p = Deliberation \<and>
        pt_activeInstanceId p = map_option inst_id (activeAt roster n (pt_turnCount p)) \<and>
        activeAt roster n (pt_turnCount p) \<noteq> None
      \<or> pt_phase p = Pacing \<and> pt_calls p = [] \<and> 0 < pt_turnCount p \<and>
        pt_activeInstanceId p = map_option inst_id (activeAt roster n (pt_turnCount p - 1)) \<and>
        activeAt roster n (pt_turnCount p - 1) \<noteq> None)"

definition inv_trace :: "nat \<Rightarrow> AIInstance list \<Rightarrow> app \<Rightarrow> app \<Rightarrow> bool" where
  "inv_trace n roster s0 s \<longleftrightarrow>
     length (currentHistoryRef s) = turnCountRef s \<and> status s = Running \<and>
     \<not> isEngineering s \<and> verdict s = None \<and>
     extends (trace s0) (turn_point n roster) s"

text \<open>
  The entry at position \<open>t\<close> was written for the instance the counter selected at turn
  \<open>t\<close>, from the raw text \<open>raw\<close>. \<open>inv_data\<close>: transcript and raw texts grow together
  with the counter, by such entries, and nothing older changes.
\<close>

definition turn_entry :: "nat \<Rightarrow> AIInstance list \<Rightarrow> nat \<Rightarrow> DialogueEntry \<Rightarrow> js_string \<Rightarrow> bool" where
  "turn_entry n roster t e raw \<longleftrightarrow>
     map_option inst_id (activeAt roster n t) = Some (authorId e) \<and>
     map_option name (activeAt roster n t) = Some (authorName e) \<and>
     content e = cleanResponse raw"

definition inv_data :: "nat \<Rightarrow> AIInstance list \<Rightarrow> app \<Rightarrow> app \<Rightarrow> bool" where
  "inv_data n roster s0 s \<longleftrightarrow>
     length (currentHistoryRef s) = turnCountRef s \<and> length (rawTexts s) = turnCountRef s \<and>
     turnCountRef s0 \<le> turnCountRef s \<and>
     take (turnCountRef s0) (currentHistoryRef s) = currentHistoryRef s0 \<and>
     take (turnCountRef s0) (rawTexts s) = rawTexts s0 \<and>
     (if turnCountRef s0 < turnCountRef s then history s = currentHistoryRef s
      else history s = history s0) \<and>
     (\<forall>t. turnCountRef s0 \<le> t \<and> t < turnCountRef s
          \<longrightarrow> turn_entry n roster t (currentHistoryRef s ! t) (rawTexts s ! t))"

text \<open>
  At the head of the loop no turn of the session has produced the token; when the loop
  is left, a turn that produced it is the last one, and a loop left normally without any
  token has used up its turns.
\<close>

definition inv_tok :: "app \<Rightarrow> app \<Rightarrow> bool" where
  "inv_tok s0 s \<longleftrightarrow>
     length (rawTexts s) = turnCountRef s \<and> turnCountRef s0 \<le> turnCountRef s \<and>
     (\<forall>t. turnCountRef s0 \<le> t \<and> t < turnCountRef s
          \<longrightarrow> \<not> includes_js (rawTexts s ! t) terminateSignal)"

definition token_post :: "nat \<Rightarrow> app \<Rightarrow> js_error \<times> app + app \<Rightarrow> bool" where
  "token_post n s0 r \<longleftrightarrow>
     (\<forall>t. turnCountRef s0 \<le> t \<and> t < turnCountRef (final r) \<and>
          includes_js (rawTexts (final r) ! t) terminateSignal
          \<longrightarrow> Suc t = turnCountRef (final r)) \<and>
     ((\<exists>s'. r = Inr s') \<and>
      (\<forall>t. turnCountRef s0 \<le> t \<and> t < turnCountRef (final r)
          \<longrightarrow> \<not> includes_js (rawTexts (final r) ! t) terminateSignal)
      \<longrightarrow> \<not> turnCountRef (final r) < MAX_TURNS n)"



text \<open>What a session looks like when it is over.\<close>

definition session_data :: "nat \<Rightarrow> AIInstance list \<Rightarrow> app \<Rightarrow> bool" where
  "session_data n roster r \<longleftrightarrow>
     length (currentHistoryRef r) = turnCountRef r \<and> length (rawTexts r) = turnCountRef r \<and>
     history r = currentHistoryRef r \<and> turnCountRef r \<le> MAX_TURNS n \<and>
     (\<forall>t. t < turnCountRef r
          \<longrightarrow> turn_entry n roster t (currentHistoryRef r ! t) (rawTexts r ! t)) \<and>
     (\<forall>t. t < turnCountRef r \<and> includes_js (rawTexts r ! t) terminateSignal
          \<longrightarrow> Suc t = turnCountRef r) \<and>
     (status r = Concluded \<and>
      (\<forall>t. t < turnCountRef r \<longrightarrow> \<not> includes_js (rawTexts r ! t) terminateSignal)
      \<longrightarrow> turnCountRef r = MAX_TURNS n)"

definition synth_point :: "app \<Rightarrow> point \<Rightarrow> bool" where
  "synth_point r q \<longleftrightarrow>
     pt_phase q = Synthesis \<and> pt_status q = Running \<and> \<not> pt_isEngineering q \<and>
     pt_activeInstanceId q = Some SYNT \<and> pt_verdict q = None \<and>
     pt_turnCount q = turnCountRef r \<and> pt_entries q = turnCountRef r"

section \<open>The control surface\<close>





section \<open>Fixtures for concrete runs\<close>

text \<open>Endpoints, clocks and inputs at which the theorems below are instantiated.\<close>

definition nestedToken :: js_string where
  "nestedToken = str ''[TERMINATE_[TERMINATE_DELIBERATION]DELIBERATION]''"

text \<open>An endpoint that always answers, without the token.\<close>

definition gw_steady :: gateway where
  "gw_steady k i rq = Response (Some (str ''More work is needed.'')) None"


text \<open>A clock and a priority list.\<close>

definition clock0 :: "nat \<Rightarrow> nat" where
  "clock0 k = 1000 * k"

definition priorities :: "js_string list" where
  "priorities = [str ''gemini-3-pro-preview'', str ''gemini-3-flash-preview'']"

text \<open>A council of four, about to receive a topic.\<close>

definition council4 :: app where
  "council4 = initial \<lparr> topicInput := str ''Should the grid go nuclear?'', instanceCount := 4 \<rparr>"

text \<open>
  An endpoint that is down; one whose first answer in every await is an error; a
  transcript of two entries; an instance assigned a model other than the fallback.
\<close>

definition gw_down :: gateway where
  "gw_down k i rq = Failure (str ''503'')"

definition gw_second :: gateway where
  "gw_second k i rq =
     (if i = 0 then Failure (str ''503'') else Response (Some (str ''FINAL VERDICT: yes'')) None)"

definition twoEntries :: "DialogueEntry list" where
  "twoEntries =
     [\<lparr> authorId = str ''1'', authorName = str ''INSTANCE_01'', content = str ''Yes.'',
        timestamp = 1000, isHuman = None, grounding = None \<rparr>,
      \<lparr> authorId = str ''2'', authorName = str ''INSTANCE_02'', content = str ''No.'',
        timestamp = 3000, isHuman = None, grounding = None \<rparr>]"

definition proInstance :: AIInstance where
  "proInstance = (potentialInstance 0) \<lparr> model := str ''gemini-3-pro-preview'' \<rparr>"





section \<open>Strings: replace, includes, trim\<close>

lemma includes_js_sublist: "includes_js s pat \<longleftrightarrow> sublist pat s"
  by (induction s) (auto simp: sublist_Cons_right)

lemma replace_js_absent: "\<not> includes_js s pat \<Longrightarrow> replace_js s pat rep = s"
  by (induction s) auto

lemma replace_js_length:
  "includes_js s pat \<Longrightarrow> length (replace_js s pat []) + length pat = length s"
proof (induction s)
  case Nil
  then show ?case by simp
next
  case (Cons c cs)
  show ?case
  proof (cases "prefix pat (c # cs)")
    case True
    then have "length pat \<le> length (c # cs)" by (rule prefix_length_le)
    with True show ?thesis by simp
  next
    case False
    with Cons show ?thesis by simp
  qed
qed

lemma length_trim_le: "length (trim s) \<le> length s"
  unfolding trim_def
  by (metis length_dropWhile_le length_rev order_trans)

lemma last_dropWhile: "dropWhile P xs \<noteq> [] \<Longrightarrow> last (dropWhile P xs) = last xs"
  by (induction xs) (auto split: if_splits)

lemma dropWhile_hd_fix: "xs \<noteq> [] \<Longrightarrow> \<not> P (hd xs) \<Longrightarrow> dropWhile P xs = xs"
  by (cases xs) auto

text \<open>A trimmed string is empty or has no white space at either end.\<close>

lemma trim_ends:
  "trim s = [] \<or> (\<not> isWhiteSpace (hd (trim s)) \<and> \<not> isWhiteSpace (last (trim s)))"
proof (cases "trim s = []")
  case True
  then show ?thesis by simp
next
  case False
  let ?v = "dropWhile isWhiteSpace (rev s)"
  from False have ne: "dropWhile isWhiteSpace (rev ?v) \<noteq> []" by (simp add: trim_def)
  then have v: "?v \<noteq> []" by (metis dropWhile.simps(1) rev.simps(1))
  have "\<not> isWhiteSpace (hd (trim s))"
    unfolding trim_def using ne by (rule hd_dropWhile)
  moreover have "last (trim s) = last (rev ?v)"
    unfolding trim_def using ne by (rule last_dropWhile)
  moreover have "last (rev ?v) = hd ?v" using v by (simp add: last_rev)
  moreover have "\<not> isWhiteSpace (hd ?v)" using v by (rule hd_dropWhile)
  ultimately show ?thesis by simp
qed

lemma trim_fix:
  assumes "s = [] \<or> (\<not> isWhiteSpace (hd s) \<and> \<not> isWhiteSpace (last s))"
  shows "trim s = s"
proof (cases s rule: rev_cases)
  case Nil
  then show ?thesis by (simp add: trim_def)
next
  case (snoc ys y)
  with assms have "\<not> isWhiteSpace y" and h: "\<not> isWhiteSpace (hd s)" by auto
  then have "dropWhile isWhiteSpace (rev s) = rev s" using snoc by simp
  moreover from snoc h have "dropWhile isWhiteSpace s = s" by (intro dropWhile_hd_fix) auto
  ultimately show ?thesis by (simp add: trim_def)
qed

lemma trim_trim: "trim (trim s) = trim s"
  using trim_ends [of s] by (rule trim_fix)

lemma trim_sublist: "sublist (trim s) s"
proof -
  have "suffix (trim s) (rev (dropWhile isWhiteSpace (rev s)))"
    unfolding trim_def by (rule suffix_dropWhile)
  moreover have "prefix (rev (dropWhile isWhiteSpace (rev s))) s"
    using suffix_dropWhile [of isWhiteSpace "rev s"] by (simp add: suffix_to_prefix)
  ultimately show ?thesis
    by (meson sublist_order.order_trans prefix_imp_sublist suffix_imp_sublist)
qed

lemma includes_js_trim: "includes_js (trim s) pat \<Longrightarrow> includes_js s pat"
  using trim_sublist [of s] by (auto simp: includes_js_sublist intro: sublist_order.order_trans)

section \<open>Cleaning a response\<close>

lemma terminateSignal_length: "length terminateSignal = 24"
  by (simp add: terminateSignal_def str_def)

lemma cleanResponse_absent:
  "\<not> includes_js s terminateSignal \<Longrightarrow> cleanResponse s = trim s"
  by (simp add: cleanResponse_def replace_js_absent)

lemma cleanResponse_idem_iff:
  "cleanResponse (cleanResponse s) = cleanResponse s \<longleftrightarrow>
     \<not> includes_js (cleanResponse s) terminateSignal"
proof
  assume eq: "cleanResponse (cleanResponse s) = cleanResponse s"
  show "\<not> includes_js (cleanResponse s) terminateSignal"
  proof
    assume "includes_js (cleanResponse s) terminateSignal"
    then have "length (replace_js (cleanResponse s) terminateSignal []) + 24
               = length (cleanResponse s)"
      using replace_js_length [of "cleanResponse s" terminateSignal]
      by (simp add: terminateSignal_length)
    moreover have "length (cleanResponse (cleanResponse s))
                 \<le> length (replace_js (cleanResponse s) terminateSignal [])"
      unfolding cleanResponse_def [of "cleanResponse s"] by (rule length_trim_le)
    ultimately show False using eq by simp
  qed
next
  assume "\<not> includes_js (cleanResponse s) terminateSignal"
  then have "cleanResponse (cleanResponse s) = trim (cleanResponse s)"
    by (rule cleanResponse_absent)
  also have "\<dots> = cleanResponse s" by (simp add: cleanResponse_def trim_trim)
  finally show "cleanResponse (cleanResponse s) = cleanResponse s" .
qed

lemma space_notin_terminateSignal: "of_char CHR '' '' \<notin> set terminateSignal"
  by (simp add: terminateSignal_def str_def)

lemma replace_js_suffix_token:
  "\<not> includes_js x terminateSignal \<Longrightarrow>
   replace_js (x @ str '' '' @ terminateSignal) terminateSignal [] = x @ str '' ''"
proof (induction x)
  case Nil
  show ?case by (simp add: terminateSignal_def str_def)
next
  case (Cons c cs)
  have "\<not> prefix terminateSignal ((c # cs) @ str '' '' @ terminateSignal)"
  proof
    assume "prefix terminateSignal ((c # cs) @ str '' '' @ terminateSignal)"
    then have "prefix terminateSignal (c # cs)
        \<or> (\<exists>us. terminateSignal = (c # cs) @ us \<and> prefix us (str '' '' @ terminateSignal))"
      by (simp only: prefix_append)
    moreover have np: "\<not> prefix terminateSignal (c # cs)" using Cons.prems by simp
    ultimately obtain us where us: "terminateSignal = (c # cs) @ us"
        "prefix us (str '' '' @ terminateSignal)" by blast
    show False
    proof (cases us)
      case Nil
      with us(1) np show False by simp
    next
      case (Cons u us')
      with us(2) have "u = of_char CHR '' ''" by (simp add: str_def)
      moreover have "u \<in> set ((c # cs) @ us)" using Cons by simp
      then have "u \<in> set terminateSignal" by (simp only: us(1) [symmetric])
      ultimately show False using space_notin_terminateSignal by simp
    qed
  qed
  with Cons show ?case by simp
qed

lemma cleanResponse_suffix_token:
  assumes "\<not> includes_js x terminateSignal"
  shows "cleanResponse (x @ str '' '' @ terminateSignal) = trim x"
proof -
  from assms have "cleanResponse (x @ str '' '' @ terminateSignal) = trim (x @ str '' '')"
    by (simp add: cleanResponse_def replace_js_suffix_token)
  also have "\<dots> = trim x" by (simp add: trim_def str_def isWhiteSpace_def)
  finally show ?thesis .
qed

text \<open>
  C4 (as stated, refuted). Cleaning is not idempotent on every input: removing the one
  occurrence of the token from the text below leaves the token itself, which a second
  cleaning removes.
\<close>

theorem cleanResponse_not_idempotent:
  "cleanResponse nestedToken = terminateSignal
   \<and> cleanResponse (cleanResponse nestedToken) = []
   \<and> cleanResponse (cleanResponse nestedToken) \<noteq> cleanResponse nestedToken"
  by (simp add: nestedToken_def cleanResponse_def terminateSignal_def str_def trim_def
      isWhiteSpace_def)

text \<open>
  C4 (amended). Cleaning a response (remove the leftmost occurrence of the exact token,
  then trim) is idempotent on every input whose cleaned text no longer contains the
  token. Such are the inputs without the token, which are stored unchanged up to
  trimming, and the inputs \<open>x\<close> without the token followed by a space and the token,
  which are stored as \<open>x\<close> trimmed; so \<^verbatim>\<open>"X [TERMINATE_DELIBERATION]"\<close> is stored as
  \<^verbatim>\<open>"X"\<close>.
\<close>

theorem cleanResponse_exact:
  "(\<not> includes_js (cleanResponse s) terminateSignal
      \<longrightarrow> cleanResponse (cleanResponse s) = cleanResponse s)
   \<and> (\<not> includes_js s terminateSignal
        \<longrightarrow> cleanResponse s = trim s \<and> cleanResponse (cleanResponse s) = cleanResponse s)
   \<and> (\<not> includes_js x terminateSignal
        \<longrightarrow> cleanResponse (x @ str '' '' @ terminateSignal) = trim x
          \<and> cleanResponse (cleanResponse (x @ str '' '' @ terminateSignal))
              = cleanResponse (x @ str '' '' @ terminateSignal))
   \<and> cleanResponse (str ''X [TERMINATE_DELIBERATION]'') = str ''X''"
proof (intro conjI impI)
  assume "\<not> includes_js (cleanResponse s) terminateSignal"
  then show "cleanResponse (cleanResponse s) = cleanResponse s"
    by (simp add: cleanResponse_idem_iff)
next
  assume absent: "\<not> includes_js s terminateSignal"
  then show eq: "cleanResponse s = trim s" by (rule cleanResponse_absent)
  from absent have "\<not> includes_js (trim s) terminateSignal"
    using includes_js_trim by blast
  with eq show "cleanResponse (cleanResponse s) = cleanResponse s"
    by (simp add: cleanResponse_absent trim_trim)
next
  assume absent: "\<not> includes_js x terminateSignal"
  then show eq: "cleanResponse (x @ str '' '' @ terminateSignal) = trim x"
    by (rule cleanResponse_suffix_token)
  from absent have "\<not> includes_js (trim x) terminateSignal"
    using includes_js_trim by blast
  then have "cleanResponse (trim x) = trim x"
    by (simp add: cleanResponse_absent trim_trim)
  with eq show "cleanResponse (cleanResponse (x @ str '' '' @ terminateSignal))
      = cleanResponse (x @ str '' '' @ terminateSignal)"
    by simp
next
  show "cleanResponse (str ''X [TERMINATE_DELIBERATION]'') = str ''X''"
    by (simp add: cleanResponse_def terminateSignal_def str_def trim_def isWhiteSpace_def)
qed

theorem cleanResponse_exact_witness:
  "\<not> includes_js (str '' consensus reached '') terminateSignal
   \<and> cleanResponse (str '' consensus reached '') = str ''consensus reached''
   \<and> cleanResponse (cleanResponse (str '' consensus reached ''))
       = cleanResponse (str '' consensus reached '')
   \<and> \<not> includes_js (str ''We agree.'') terminateSignal
   \<and> cleanResponse (str ''We agree.'' @ str '' '' @ terminateSignal) = str ''We agree.''
   \<and> cleanResponse (cleanResponse (str ''We agree.'' @ str '' '' @ terminateSignal))
       = cleanResponse (str ''We agree.'' @ str '' '' @ terminateSignal)"
proof -
  have a: "\<not> includes_js (str '' consensus reached '') terminateSignal"
    by (simp add: terminateSignal_def str_def)
  have b: "\<not> includes_js (str ''We agree.'') terminateSignal"
    by (simp add: terminateSignal_def str_def)
  have c: "trim (str '' consensus reached '') = str ''consensus reached''"
    by (simp add: str_def trim_def isWhiteSpace_def)
  have d: "trim (str ''We agree.'') = str ''We agree.''"
    by (simp add: str_def trim_def isWhiteSpace_def)
  from a cleanResponse_exact [of "str '' consensus reached ''" "str ''We agree.''"]
  have e: "cleanResponse (str '' consensus reached '') = trim (str '' consensus reached '')"
    and f: "cleanResponse (cleanResponse (str '' consensus reached ''))
            = cleanResponse (str '' consensus reached '')"
    by blast+
  from b cleanResponse_exact [of "str '' consensus reached ''" "str ''We agree.''"]
  have g: "cleanResponse (str ''We agree.'' @ str '' '' @ terminateSignal)
           = trim (str ''We agree.'')"
    and h: "cleanResponse (cleanResponse (str ''We agree.'' @ str '' '' @ terminateSignal))
            = cleanResponse (str ''We agree.'' @ str '' '' @ terminateSignal)"
    by blast+
  from a b e f g h show ?thesis by (simp only: c d simp_thms)
qed

text \<open>
  Only the leftmost occurrence is removed: of two tokens the second is stored with the
  content.
\<close>

lemma cleanResponse_leftmost_only:
  "cleanResponse (str ''A [TERMINATE_DELIBERATION] [TERMINATE_DELIBERATION]'')
     = str ''A  [TERMINATE_DELIBERATION]''"
  by (simp add: cleanResponse_def terminateSignal_def str_def trim_def isWhiteSpace_def)

section \<open>The turn loop\<close>

declare loop_while.simps [simp del]


lemma turn_Inr:
  assumes "turn d n inst s = Inr (s', text)"
  obtains resp calls where
    "svc_getAIResponse d (length (trace s)) inst (optimizedTopicRef s) (currentHistoryRef s) n
       = (Inr resp, calls)"
    "text = resp_text resp"
    "s' = s \<lparr> activeInstanceId := Some (inst_id inst),
             trace := trace s @ [observe Deliberation calls (s \<lparr> activeInstanceId := Some (inst_id inst) \<rparr>)],
             currentHistoryRef := currentHistoryRef s @ [newEntry d inst resp (Suc (length (trace s)))],
             history := currentHistoryRef s @ [newEntry d inst resp (Suc (length (trace s)))],
             turnCountRef := turnCountRef s + 1,
             rawTexts := rawTexts s @ [text] \<rparr>"
  using assms
  by (auto simp: turn_def suspend_def Let_def newEntry_def split: prod.splits sum.splits)

lemma turn_Inl:
  assumes "turn d n inst s = Inl (e, s')"
  obtains calls where
    "svc_getAIResponse d (length (trace s)) inst (optimizedTopicRef s) (currentHistoryRef s) n
       = (Inl e, calls)"
    "s' = s \<lparr> activeInstanceId := Some (inst_id inst),
             trace := trace s @ [observe Deliberation calls (s \<lparr> activeInstanceId := Some (inst_id inst) \<rparr>)] \<rparr>"
  using assms
  by (auto simp: turn_def suspend_def Let_def split: prod.splits sum.splits)

lemma loop_while_rule:
  assumes init: "I s"
    and cont: "\<And>s inst s' text. \<lbrakk>I s; turnCountRef s < MAX_TURNS n;
                 activeAt roster n (turnCountRef s) = Some inst;
                 turn d n inst s = Inr (s', text); \<not> includes_js text terminateSignal\<rbrakk>
               \<Longrightarrow> I (suspend Pacing [] s')"
    and brk: "\<And>s inst s' text. \<lbrakk>I s; turnCountRef s < MAX_TURNS n;
                 activeAt roster n (turnCountRef s) = Some inst;
                 turn d n inst s = Inr (s', text); includes_js text terminateSignal\<rbrakk>
               \<Longrightarrow> Q (Inr s')"
    and err: "\<And>s inst e s'. \<lbrakk>I s; turnCountRef s < MAX_TURNS n;
                 activeAt roster n (turnCountRef s) = Some inst;
                 turn d n inst s = Inl (e, s')\<rbrakk>
               \<Longrightarrow> Q (Inl (e, s'))"
    and undef: "\<And>s. \<lbrakk>I s; turnCountRef s < MAX_TURNS n;
                 activeAt roster n (turnCountRef s) = None\<rbrakk>
               \<Longrightarrow> Q (Inl (TypeError, s))"
    and cap: "\<And>s. \<lbrakk>I s; \<not> turnCountRef s < MAX_TURNS n\<rbrakk> \<Longrightarrow> Q (Inr s)"
  shows "Q (loop_while d n roster s)"
  using assms
proof (induction d n roster s rule: loop_while.induct)
  case (1 d n roster s)
  note init = "1.prems"(1) and cont = "1.prems"(2) and brk = "1.prems"(3)
    and err = "1.prems"(4) and undef = "1.prems"(5) and cap = "1.prems"(6)
  show ?case
  proof (cases "turnCountRef s < MAX_TURNS n")
    case False
    with init have "Q (Inr s)" by (rule cap)
    moreover from False have "loop_while d n roster s = Inr s"
      by (simp add: loop_while.simps)
    ultimately show ?thesis by simp
  next
    case lt: True
    show ?thesis
    proof (cases "activeAt roster n (turnCountRef s)")
      case None
      with init lt have "Q (Inl (TypeError, s))" by (intro undef)
      moreover from lt None have "loop_while d n roster s = Inl (TypeError, s)"
        by (simp add: loop_while.simps)
      ultimately show ?thesis by simp
    next
      case (Some inst)
      show ?thesis
      proof (cases "turn d n inst s")
        case (Inl es)
        then obtain e s' where t: "turn d n inst s = Inl (e, s')" by (cases es) auto
        with init lt Some have "Q (Inl (e, s'))" by (intro err)
        moreover from lt Some t have "loop_while d n roster s = Inl (e, s')"
          by (simp add: loop_while.simps)
        ultimately show ?thesis by simp
      next
        case (Inr st)
        then obtain s' raw where t: "turn d n inst s = Inr (s', raw)" by (cases st) auto
        show ?thesis
        proof (cases "includes_js raw terminateSignal")
          case True
          with init lt Some t have "Q (Inr s')" by (intro brk)
          moreover from lt Some t True have "loop_while d n roster s = Inr s'"
            by (simp add: loop_while.simps)
          ultimately show ?thesis by simp
        next
          case False
          with init lt Some t have "I (suspend Pacing [] s')" by (intro cont)
          with lt Some t False have "Q (loop_while d n roster (suspend Pacing [] s'))"
            using cont brk err undef cap by (intro "1.IH") auto
          moreover from lt Some t False
          have "loop_while d n roster s = loop_while d n roster (suspend Pacing [] s')"
            by (simp add: loop_while.simps)
          ultimately show ?thesis by simp
        qed
      qed
    qed
  qed
qed

lemma extends_refl: "trace s = tr \<Longrightarrow> extends tr P s"
  by (simp add: extends_def)

lemma extends_snoc:
  "extends tr P s \<Longrightarrow> trace s' = trace s @ [p] \<Longrightarrow> P p \<Longrightarrow> extends tr P s'"
  by (auto simp: extends_def)

lemma extends_same: "extends tr P s \<Longrightarrow> trace s' = trace s \<Longrightarrow> extends tr P s'"
  by (auto simp: extends_def)

lemma turn_Inr_fields:
  assumes "turn d n inst s = Inr (s', raw)"
  shows "trace s' = trace s @ [observe Deliberation
            (snd (svc_getAIResponse d (length (trace s)) inst (optimizedTopicRef s)
                   (currentHistoryRef s) n))
            (s \<lparr> activeInstanceId := Some (inst_id inst) \<rparr>)]"
    and "status s' = status s" and "isEngineering s' = isEngineering s"
    and "verdict s' = verdict s" and "turnCountRef s' = turnCountRef s + 1"
    and "activeInstanceId s' = Some (inst_id inst)"
    and "\<exists>resp. currentHistoryRef s' = currentHistoryRef s @ [newEntry d inst resp (Suc (length (trace s)))]
               \<and> raw = resp_text resp"
    and "history s' = currentHistoryRef s'"
    and "rawTexts s' = rawTexts s @ [raw]"
proof -
  from assms obtain resp calls where
    c: "svc_getAIResponse d (length (trace s)) inst (optimizedTopicRef s) (currentHistoryRef s) n
       = (Inr resp, calls)" and r: "raw = resp_text resp" and
    s': "s' = s \<lparr> activeInstanceId := Some (inst_id inst),
             trace := trace s @ [observe Deliberation calls (s \<lparr> activeInstanceId := Some (inst_id inst) \<rparr>)],
             currentHistoryRef := currentHistoryRef s @ [newEntry d inst resp (Suc (length (trace s)))],
             history := currentHistoryRef s @ [newEntry d inst resp (Suc (length (trace s)))],
             turnCountRef := turnCountRef s + 1,
             rawTexts := rawTexts s @ [raw] \<rparr>"
    by (rule turn_Inr)
  show "trace s' = trace s @ [observe Deliberation
            (snd (svc_getAIResponse d (length (trace s)) inst (optimizedTopicRef s)
                   (currentHistoryRef s) n))
            (s \<lparr> activeInstanceId := Some (inst_id inst) \<rparr>)]"
    by (simp add: s' c)
  show "status s' = status s" by (simp add: s')
  show "isEngineering s' = isEngineering s" by (simp add: s')
  show "verdict s' = verdict s" by (simp add: s')
  show "turnCountRef s' = turnCountRef s + 1" by (simp add: s')
  show "activeInstanceId s' = Some (inst_id inst)" by (simp add: s')
  show "\<exists>resp. currentHistoryRef s' = currentHistoryRef s @ [newEntry d inst resp (Suc (length (trace s)))]
               \<and> raw = resp_text resp"
    using r by (auto simp: s')
  show "history s' = currentHistoryRef s'" by (simp add: s')
  show "rawTexts s' = rawTexts s @ [raw]" by (simp add: s')
qed

lemma turn_Inl_fields:
  assumes "turn d n inst s = Inl (e, s')"
  shows "trace s' = trace s @ [observe Deliberation
               (snd (svc_getAIResponse d (length (trace s)) inst (optimizedTopicRef s)
                   (currentHistoryRef s) n))
               (s \<lparr> activeInstanceId := Some (inst_id inst) \<rparr>)]"
    and "status s' = status s" and "isEngineering s' = isEngineering s"
    and "verdict s' = verdict s" and "turnCountRef s' = turnCountRef s"
    and "activeInstanceId s' = Some (inst_id inst)"
    and "currentHistoryRef s' = currentHistoryRef s"
    and "history s' = history s"
    and "rawTexts s' = rawTexts s"
proof -
  from assms obtain calls where
    c: "svc_getAIResponse d (length (trace s)) inst (optimizedTopicRef s) (currentHistoryRef s) n
       = (Inl e, calls)" and
    s': "s' = s \<lparr> activeInstanceId := Some (inst_id inst),
             trace := trace s @ [observe Deliberation calls (s \<lparr> activeInstanceId := Some (inst_id inst) \<rparr>)] \<rparr>"
    by (rule turn_Inl)
  show "trace s' = trace s @ [observe Deliberation
               (snd (svc_getAIResponse d (length (trace s)) inst (optimizedTopicRef s)
                   (currentHistoryRef s) n))
               (s \<lparr> activeInstanceId := Some (inst_id inst) \<rparr>)]"
    by (simp add: s' c)
  show "status s' = status s" by (simp add: s')
  show "isEngineering s' = isEngineering s" by (simp add: s')
  show "verdict s' = verdict s" by (simp add: s')
  show "turnCountRef s' = turnCountRef s" by (simp add: s')
  show "activeInstanceId s' = Some (inst_id inst)" by (simp add: s')
  show "currentHistoryRef s' = currentHistoryRef s" by (simp add: s')
  show "history s' = history s" by (simp add: s')
  show "rawTexts s' = rawTexts s" by (simp add: s')
qed

lemma inv_trace_turn:
  assumes "inv_trace n roster s0 s" "activeAt roster n (turnCountRef s) = Some inst"
    "turn d n inst s = Inr (s', raw)"
  shows "inv_trace n roster s0 s'" and "inv_trace n roster s0 (suspend Pacing [] s')"
proof -
  let ?p = "observe Deliberation (snd (svc_getAIResponse d (length (trace s)) inst
              (optimizedTopicRef s) (currentHistoryRef s) n))
              (s \<lparr> activeInstanceId := Some (inst_id inst) \<rparr>)"
  note fr = turn_Inr_fields [OF assms(3)]
  from fr(7) have len: "length (currentHistoryRef s') = length (currentHistoryRef s) + 1"
    by auto
  have p1: "turn_point n roster ?p"
    using assms(1,2) by (simp add: turn_point_def observe_def inv_trace_def)
  from assms(1) have "extends (trace s0) (turn_point n roster) s"
    by (simp add: inv_trace_def)
  then have e1: "extends (trace s0) (turn_point n roster) s'"
    using fr(1) p1 by (rule extends_snoc)
  with assms(1) fr(2-5) len show 1: "inv_trace n roster s0 s'" by (simp add: inv_trace_def)
  have p2: "turn_point n roster (observe Pacing [] s')"
    using assms(1,2) fr(2-6) len by (simp add: turn_point_def observe_def inv_trace_def)
  have "trace (suspend Pacing [] s') = trace s' @ [observe Pacing [] s']"
    by (simp add: suspend_def)
  with e1 have "extends (trace s0) (turn_point n roster) (suspend Pacing [] s')"
    using p2 by (rule extends_snoc)
  with 1 show "inv_trace n roster s0 (suspend Pacing [] s')"
    by (simp add: inv_trace_def suspend_def)
qed

lemma inv_trace_turn_err:
  assumes "inv_trace n roster s0 s" "activeAt roster n (turnCountRef s) = Some inst"
    "turn d n inst s = Inl (e, s')"
  shows "inv_trace n roster s0 s'"
proof -
  let ?p = "observe Deliberation (snd (svc_getAIResponse d (length (trace s)) inst
              (optimizedTopicRef s) (currentHistoryRef s) n))
              (s \<lparr> activeInstanceId := Some (inst_id inst) \<rparr>)"
  note fr = turn_Inl_fields [OF assms(3)]
  have tr: "trace s' = trace s @ [?p]" by (rule fr(1))
  have p1: "turn_point n roster ?p"
    using assms(1,2) by (simp add: turn_point_def observe_def inv_trace_def)
  from assms(1) have "extends (trace s0) (turn_point n roster) s"
    by (simp add: inv_trace_def)
  then have e1: "extends (trace s0) (turn_point n roster) s'"
    using tr p1 by (rule extends_snoc)
  moreover have "length (currentHistoryRef s') = turnCountRef s'" "status s' = Running"
     "\<not> isEngineering s'" "verdict s' = None"
    using assms(1) fr by (simp_all add: inv_trace_def)
  ultimately show "inv_trace n roster s0 s'" by (simp add: inv_trace_def)
qed

lemma loop_while_points:
  assumes "length (currentHistoryRef s) = turnCountRef s" "status s = Running"
    "\<not> isEngineering s" "verdict s = None"
  shows "inv_trace n roster s (final (loop_while d n roster s))"
proof (rule loop_while_rule [where I = "inv_trace n roster s"])
  show "inv_trace n roster s s" using assms by (simp add: inv_trace_def extends_refl)
next
  fix s1 :: app and inst s' raw
  assume "inv_trace n roster s s1" "activeAt roster n (turnCountRef s1) = Some inst"
    "turn d n inst s1 = Inr (s', raw)"
  then show "inv_trace n roster s (suspend Pacing [] s')" by (rule inv_trace_turn(2))
next
  fix s1 :: app and inst s' raw
  assume "inv_trace n roster s s1" "activeAt roster n (turnCountRef s1) = Some inst"
    "turn d n inst s1 = Inr (s', raw)"
  then have "inv_trace n roster s s'" by (rule inv_trace_turn(1))
  then show "inv_trace n roster s (final (Inr s'))" by (simp add: final_def)
next
  fix s1 :: app and inst e s'
  assume "inv_trace n roster s s1" "activeAt roster n (turnCountRef s1) = Some inst"
    "turn d n inst s1 = Inl (e, s')"
  then have "inv_trace n roster s s'" by (rule inv_trace_turn_err)
  then show "inv_trace n roster s (final (Inl (e, s')))" by (simp add: final_def)
next
  fix s1 :: app assume "inv_trace n roster s s1"
  then show "inv_trace n roster s (final (Inl (TypeError, s1)))" by (simp add: final_def)
next
  fix s1 :: app assume "inv_trace n roster s s1"
  then show "inv_trace n roster s (final (Inr s1))" by (simp add: final_def)
qed






lemma loop_while_cap:
  "turnCountRef (final (loop_while d n roster s)) \<le> max (turnCountRef s) (MAX_TURNS n)"
proof (rule loop_while_rule [where I = "\<lambda>s'. turnCountRef s' \<le> max (turnCountRef s) (MAX_TURNS n)"])
  show "turnCountRef s \<le> max (turnCountRef s) (MAX_TURNS n)" by simp
next
  fix s1 :: app and inst s' raw
  assume "turnCountRef s1 < MAX_TURNS n" "turn d n inst s1 = Inr (s', raw)"
  then show "turnCountRef (suspend Pacing [] s') \<le> max (turnCountRef s) (MAX_TURNS n)"
    by (simp add: suspend_def turn_Inr_fields(5))
next
  fix s1 :: app and inst s' raw
  assume "turnCountRef s1 < MAX_TURNS n" "turn d n inst s1 = Inr (s', raw)"
  then show "turnCountRef (final (Inr s')) \<le> max (turnCountRef s) (MAX_TURNS n)"
    by (simp add: final_def turn_Inr_fields(5))
next
  fix s1 :: app and inst e s'
  assume "turnCountRef s1 \<le> max (turnCountRef s) (MAX_TURNS n)" "turn d n inst s1 = Inl (e, s')"
  then show "turnCountRef (final (Inl (e, s'))) \<le> max (turnCountRef s) (MAX_TURNS n)"
    by (simp add: final_def turn_Inl_fields(5))
next
  fix s1 :: app assume "turnCountRef s1 \<le> max (turnCountRef s) (MAX_TURNS n)"
  then show "turnCountRef (final (Inl (TypeError, s1))) \<le> max (turnCountRef s) (MAX_TURNS n)"
    by (simp add: final_def)
next
  fix s1 :: app assume "turnCountRef s1 \<le> max (turnCountRef s) (MAX_TURNS n)"
  then show "turnCountRef (final (Inr s1)) \<le> max (turnCountRef s) (MAX_TURNS n)"
    by (simp add: final_def)
qed

lemma inv_data_turn:
  assumes "inv_data n roster s0 s" "activeAt roster n (turnCountRef s) = Some inst"
    "turn d n inst s = Inr (s', raw)"
  shows "inv_data n roster s0 s'"
proof -
  note fr = turn_Inr_fields [OF assms(3)]
  from fr(7) obtain resp where
    h: "currentHistoryRef s' = currentHistoryRef s @ [newEntry d inst resp (Suc (length (trace s)))]"
    and raw: "raw = resp_text resp" by blast
  from assms(1) have len: "length (currentHistoryRef s) = turnCountRef s"
    "length (rawTexts s) = turnCountRef s" "turnCountRef s0 \<le> turnCountRef s"
    and old: "\<And>t. turnCountRef s0 \<le> t \<Longrightarrow> t < turnCountRef s
          \<Longrightarrow> turn_entry n roster t (currentHistoryRef s ! t) (rawTexts s ! t)"
    and tk: "take (turnCountRef s0) (currentHistoryRef s) = currentHistoryRef s0"
      "take (turnCountRef s0) (rawTexts s) = rawTexts s0"
    by (simp_all add: inv_data_def)
  have new: "turn_entry n roster (turnCountRef s)
               (newEntry d inst resp (Suc (length (trace s)))) raw"
    using assms(2) raw by (simp add: turn_entry_def newEntry_def)
  have ent: "turn_entry n roster t (currentHistoryRef s' ! t) (rawTexts s' ! t)"
    if "turnCountRef s0 \<le> t" "t < turnCountRef s'" for t
  proof (cases "t < turnCountRef s")
    case True
    with that old [of t] len show ?thesis by (simp add: h fr(9) nth_append)
  next
    case False
    with that fr(5) have "t = turnCountRef s" by simp
    with new len show ?thesis by (simp add: h fr(9) nth_append)
  qed
  show ?thesis
    unfolding inv_data_def
  proof (intro conjI allI impI)
    show "length (currentHistoryRef s') = turnCountRef s'" using len by (simp add: h fr(5))
    show "length (rawTexts s') = turnCountRef s'" using len by (simp add: fr(9) fr(5))
    show "turnCountRef s0 \<le> turnCountRef s'" using len by (simp add: fr(5))
    show "take (turnCountRef s0) (currentHistoryRef s') = currentHistoryRef s0"
      using len tk by (simp add: h)
    show "take (turnCountRef s0) (rawTexts s') = rawTexts s0"
      using len tk by (simp add: fr(9))
    show "if turnCountRef s0 < turnCountRef s' then history s' = currentHistoryRef s'
          else history s' = history s0"
      using len by (simp add: fr(5) fr(8))
    fix t assume "turnCountRef s0 \<le> t \<and> t < turnCountRef s'"
    then show "turn_entry n roster t (currentHistoryRef s' ! t) (rawTexts s' ! t)"
      using ent by blast
  qed
qed

lemma inv_data_suspend: "inv_data n roster s0 s \<Longrightarrow> inv_data n roster s0 (suspend ph calls s)"
  by (simp add: inv_data_def suspend_def)

lemma inv_data_turn_err:
  assumes "inv_data n roster s0 s" "turn d n inst s = Inl (e, s')"
  shows "inv_data n roster s0 s'"
  using assms(1) turn_Inl_fields [OF assms(2)] by (simp add: inv_data_def)

lemma loop_while_data:
  assumes "length (currentHistoryRef s) = turnCountRef s" "length (rawTexts s) = turnCountRef s"
  shows "inv_data n roster s (final (loop_while d n roster s))"
proof (rule loop_while_rule [where I = "inv_data n roster s"])
  show "inv_data n roster s s" using assms by (auto simp: inv_data_def)
next
  fix s1 :: app and inst s' raw
  assume "inv_data n roster s s1" "activeAt roster n (turnCountRef s1) = Some inst"
    "turn d n inst s1 = Inr (s', raw)"
  then have "inv_data n roster s s'" by (rule inv_data_turn)
  then show "inv_data n roster s (suspend Pacing [] s')" by (rule inv_data_suspend)
next
  fix s1 :: app and inst s' raw
  assume "inv_data n roster s s1" "activeAt roster n (turnCountRef s1) = Some inst"
    "turn d n inst s1 = Inr (s', raw)"
  then have "inv_data n roster s s'" by (rule inv_data_turn)
  then show "inv_data n roster s (final (Inr s'))" by (simp add: final_def)
next
  fix s1 :: app and inst e s'
  assume "inv_data n roster s s1" "turn d n inst s1 = Inl (e, s')"
  then have "inv_data n roster s s'" by (rule inv_data_turn_err)
  then show "inv_data n roster s (final (Inl (e, s')))" by (simp add: final_def)
next
  fix s1 :: app assume "inv_data n roster s s1"
  then show "inv_data n roster s (final (Inl (TypeError, s1)))" by (simp add: final_def)
next
  fix s1 :: app assume "inv_data n roster s s1"
  then show "inv_data n roster s (final (Inr s1))" by (simp add: final_def)
qed

lemma inv_tok_turn:
  assumes "inv_tok s0 s" "turn d n inst s = Inr (s', raw)"
    "\<not> includes_js raw terminateSignal"
  shows "inv_tok s0 (suspend Pacing [] s')"
proof -
  note fr = turn_Inr_fields [OF assms(2)]
  from assms(1) have len: "length (rawTexts s) = turnCountRef s"
    "turnCountRef s0 \<le> turnCountRef s"
    and old: "\<And>t. turnCountRef s0 \<le> t \<Longrightarrow> t < turnCountRef s
          \<Longrightarrow> \<not> includes_js (rawTexts s ! t) terminateSignal"
    by (simp_all add: inv_tok_def)
  have "\<not> includes_js (rawTexts s' ! t) terminateSignal"
    if "turnCountRef s0 \<le> t" "t < turnCountRef s'" for t
  proof (cases "t < turnCountRef s")
    case True
    with that old [of t] len show ?thesis by (simp add: fr(9) nth_append)
  next
    case False
    with that fr(5) have "t = turnCountRef s" by simp
    with assms(3) len show ?thesis by (simp add: fr(9) nth_append)
  qed
  with len show ?thesis by (simp add: inv_tok_def suspend_def fr(5) fr(9))
qed

lemma inv_tok_break:
  assumes "inv_tok s0 s" "turn d n inst s = Inr (s', raw)"
    "includes_js raw terminateSignal"
  shows "token_post n s0 (Inr s')"
proof -
  note fr = turn_Inr_fields [OF assms(2)]
  from assms(1) have len: "length (rawTexts s) = turnCountRef s"
    "turnCountRef s0 \<le> turnCountRef s"
    and old: "\<And>t. turnCountRef s0 \<le> t \<Longrightarrow> t < turnCountRef s
          \<Longrightarrow> \<not> includes_js (rawTexts s ! t) terminateSignal"
    by (simp_all add: inv_tok_def)
  have a: "Suc t = turnCountRef s'"
    if "turnCountRef s0 \<le> t" "t < turnCountRef s'"
      "includes_js (rawTexts s' ! t) terminateSignal" for t
  proof (cases "t < turnCountRef s")
    case True
    with that old [of t] len show ?thesis by (simp add: fr(9) nth_append)
  next
    case False
    with that fr(5) show ?thesis by simp
  qed
  have b: "includes_js (rawTexts s' ! turnCountRef s) terminateSignal"
    using assms(3) len by (simp add: fr(9) nth_append)
  have c: "turnCountRef s0 \<le> turnCountRef s \<and> turnCountRef s < turnCountRef s'"
    using len by (simp add: fr(5))
  show ?thesis
    unfolding token_post_def final_def using a b c by auto
qed

lemma inv_tok_exit:
  assumes "inv_tok s0 s"
  shows "(\<forall>t. turnCountRef s0 \<le> t \<and> t < turnCountRef s \<and>
          includes_js (rawTexts s ! t) terminateSignal \<longrightarrow> Suc t = turnCountRef s)"
  using assms by (auto simp: inv_tok_def)

lemma loop_while_token:
  assumes "length (rawTexts s) = turnCountRef s"
  shows "token_post n s (loop_while d n roster s)"
proof (rule loop_while_rule [where I = "inv_tok s"])
  show "inv_tok s s" using assms by (auto simp: inv_tok_def)
next
  fix s1 :: app and inst s' raw
  assume "inv_tok s s1" "turn d n inst s1 = Inr (s', raw)" "\<not> includes_js raw terminateSignal"
  then show "inv_tok s (suspend Pacing [] s')" by (rule inv_tok_turn)
next
  fix s1 :: app and inst s' raw
  assume "inv_tok s s1" "turn d n inst s1 = Inr (s', raw)" "includes_js raw terminateSignal"
  then show "token_post n s (Inr s')" by (rule inv_tok_break)
next
  fix s1 :: app and inst e s'
  assume "inv_tok s s1" "turn d n inst s1 = Inl (e, s')"
  then show "token_post n s (Inl (e, s'))"
    using turn_Inl_fields [of d n inst s1 e s']
    by (auto simp: token_post_def final_def inv_tok_def)
next
  fix s1 :: app assume "inv_tok s s1"
  then show "token_post n s (Inl (TypeError, s1))"
    by (auto simp: token_post_def final_def inv_tok_def)
next
  fix s1 :: app assume "inv_tok s s1" "\<not> turnCountRef s1 < MAX_TURNS n"
  then show "token_post n s (Inr s1)"
    by (auto simp: token_post_def final_def inv_tok_def)
qed

lemma activeAt_Some: "0 < n \<Longrightarrow> n \<le> length roster \<Longrightarrow> activeAt roster n t = Some (roster ! (t mod n))"
  by (simp add: activeAt_def)
     (metis mod_less_divisor order_less_le_trans)

lemma quiet_turn:
  assumes "quiet d"
  shows "\<exists>s'. \<exists>raw. turn d n inst s = Inr (s', raw) \<and> \<not> includes_js raw terminateSignal"
proof -
  from assms obtain resp calls where
    "svc_getAIResponse d (length (trace s)) inst (optimizedTopicRef s) (currentHistoryRef s) n
       = (Inr resp, calls)" "\<not> includes_js (resp_text resp) terminateSignal"
    unfolding quiet_def by blast
  then show ?thesis by (simp add: turn_def Let_def suspend_def)
qed


lemma finalizeSynthesis_eq:
  "finalizeSynthesis d sm s =
     s \<lparr> status := Concluded,
         verdict := Some (case fst (synthesisOutcome d sm s) of
                            Inr finalResult \<Rightarrow> finalResult
                          | Inl e \<Rightarrow> Plain (str ''Critical error during synthesis phase.'')),
         trace := trace s @ [observe Synthesis (snd (synthesisOutcome d sm s))
                              (s \<lparr> status := Running, activeInstanceId := Some SYNT \<rparr>)],
         activeInstanceId := None, isRunningRef := False \<rparr>"
  by (simp add: finalizeSynthesis_def synthesisOutcome_def Let_def suspend_def
      split: prod.splits sum.splits)

lemma finalizeSynthesis_fields:
  shows "status (finalizeSynthesis d sm s) = Concluded"
    and "verdict (finalizeSynthesis d sm s)
          = Some (case fst (synthesisOutcome d sm s) of
                            Inr finalResult \<Rightarrow> finalResult
                          | Inl e \<Rightarrow> Plain (str ''Critical error during synthesis phase.''))"
    and "activeInstanceId (finalizeSynthesis d sm s) = None"
    and "isRunningRef (finalizeSynthesis d sm s) = False"
    and "trace (finalizeSynthesis d sm s)
          = trace s @ [observe Synthesis (snd (synthesisOutcome d sm s))
                              (s \<lparr> status := Running, activeInstanceId := Some SYNT \<rparr>)]"
    and "currentHistoryRef (finalizeSynthesis d sm s) = currentHistoryRef s"
    and "history (finalizeSynthesis d sm s) = history s"
    and "turnCountRef (finalizeSynthesis d sm s) = turnCountRef s"
    and "rawTexts (finalizeSynthesis d sm s) = rawTexts s"
    and "isEngineering (finalizeSynthesis d sm s) = isEngineering s"
    and "instances (finalizeSynthesis d sm s) = instances s"
    and "instanceCount (finalizeSynthesis d sm s) = instanceCount s"
  by (simp_all add: finalizeSynthesis_eq)

lemma runExperiment_cases [consumes 1, case_names rejected aborted concluded]:
  assumes "starts s"
  obtains
    (rejected) e where "fst (refinement d s) = Inl e"
      "runExperiment d s = suspend Engineering (snd (refinement d s)) (engineering s)"
  | (aborted) optimized e s' where "fst (refinement d s) = Inr optimized"
      "loop_while d (instanceCount s) (take (instanceCount s) (instances s))
         (deliberating d s optimized) = Inl (e, s')"
      "runExperiment d s = s' \<lparr> status := Idle, isRunningRef := False \<rparr>"
  | (concluded) optimized s' where "fst (refinement d s) = Inr optimized"
      "loop_while d (instanceCount s) (take (instanceCount s) (instances s))
         (deliberating d s optimized) = Inr s'"
      "runExperiment d s = finalizeSynthesis d (synthesisModel s) s'"
proof -
  obtain r calls where rc: "svc_promptEngineerTopic d (length (trace s)) (topicInput s) = (r, calls)"
    by (cases "svc_promptEngineerTopic d (length (trace s)) (topicInput s)")
  then have ref: "refinement d s = (r, calls)" by (simp add: refinement_def)
  show ?thesis
  proof (cases r)
    case (Inl e)
    with assms rc have "runExperiment d s = suspend Engineering calls (engineering s)"
      by (simp add: runExperiment_def starts_def engineering_def Let_def suspend_def)
    with Inl ref show ?thesis using rejected [of e] by simp
  next
    case (Inr optimized)
    with assms rc have run: "runExperiment d s =
        loop d (instanceCount s) (take (instanceCount s) (instances s)) (synthesisModel s)
          (deliberating d s optimized)"
      by (simp add: runExperiment_def starts_def ref engineering_def deliberating_def
          Let_def suspend_def)
    show ?thesis
    proof (cases "loop_while d (instanceCount s) (take (instanceCount s) (instances s))
           (deliberating d s optimized)")
      case (Inl es)
      then obtain e s' where es: "loop_while d (instanceCount s)
          (take (instanceCount s) (instances s)) (deliberating d s optimized) = Inl (e, s')"
        by (cases es) auto
      with run have "runExperiment d s = s' \<lparr> status := Idle, isRunningRef := False \<rparr>"
        by (simp add: loop_def)
      with Inr ref es show ?thesis using aborted [of optimized e s'] by simp
    next
      case r: (Inr s')
      with run have "runExperiment d s = finalizeSynthesis d (synthesisModel s) s'"
        by (simp add: loop_def)
      with Inr ref r show ?thesis using concluded [of optimized s'] by simp
    qed
  qed
qed

lemma deliberating_fields:
  shows "turnCountRef (deliberating d s opt) = 0"
    and "currentHistoryRef (deliberating d s opt) = []"
    and "rawTexts (deliberating d s opt) = []"
    and "history (deliberating d s opt) = []"
    and "status (deliberating d s opt) = Running"
    and "isEngineering (deliberating d s opt) = False"
    and "verdict (deliberating d s opt) = None"
    and "trace (deliberating d s opt)
          = trace s @ [observe Engineering (snd (refinement d s)) (engineering s)]"
    and "instances (deliberating d s opt) = instances s"
    and "instanceCount (deliberating d s opt) = instanceCount s"
    and "activeInstanceId (deliberating d s opt) = activeInstanceId s"
    and "optimizedTopicRef (deliberating d s opt) = opt"
    and "topic (deliberating d s opt) = topicInput s"
  by (simp_all add: deliberating_def suspend_def engineering_def)

lemma session_data_after_loop:
  fixes d n roster s0
  defines "r \<equiv> loop_while d n roster s0"
  assumes s0: "turnCountRef s0 = 0" "currentHistoryRef s0 = []" "rawTexts s0 = []"
    "history s0 = []"
    and fr: "currentHistoryRef s' = currentHistoryRef (final r)"
      "rawTexts s' = rawTexts (final r)" "history s' = history (final r)"
      "turnCountRef s' = turnCountRef (final r)"
    and st: "status s' = Concluded \<longrightarrow> (\<exists>x. r = Inr x)"
  shows "session_data n roster s'"
proof -
  have dat: "inv_data n roster s0 (final r)"
    unfolding r_def using s0 by (intro loop_while_data) simp_all
  have tok: "token_post n s0 r"
    unfolding r_def using s0 by (intro loop_while_token) simp
  have cap: "turnCountRef (final r) \<le> MAX_TURNS n"
    unfolding r_def using loop_while_cap [of d n roster s0] s0 by simp
  from dat s0 have h: "history (final r) = currentHistoryRef (final r)"
    by (cases "0 < turnCountRef (final r)") (simp_all add: inv_data_def)
  show ?thesis
    unfolding session_data_def
  proof (intro conjI allI impI)
    show "length (currentHistoryRef s') = turnCountRef s'"
      using dat by (simp add: fr inv_data_def)
    show "length (rawTexts s') = turnCountRef s'" using dat by (simp add: fr inv_data_def)
    show "history s' = currentHistoryRef s'" using h by (simp add: fr)
    show "turnCountRef s' \<le> MAX_TURNS n" using cap by (simp add: fr)
  next
    fix t assume "t < turnCountRef s'"
    then show "turn_entry n roster t (currentHistoryRef s' ! t) (rawTexts s' ! t)"
      using dat s0 by (simp add: fr inv_data_def)
  next
    fix t assume "t < turnCountRef s' \<and> includes_js (rawTexts s' ! t) terminateSignal"
    then show "Suc t = turnCountRef s'"
      using tok s0 by (simp add: fr token_post_def)
  next
    assume a: "status s' = Concluded \<and>
      (\<forall>t. t < turnCountRef s' \<longrightarrow> \<not> includes_js (rawTexts s' ! t) terminateSignal)"
    with st have "\<exists>x. r = Inr x" by simp
    with a tok s0 have "\<not> turnCountRef (final r) < MAX_TURNS n"
      by (simp add: fr token_post_def)
    with cap show "turnCountRef s' = MAX_TURNS n" by (simp add: fr)
  qed
qed

lemma session_data:
  assumes "starts s"
  shows "session_data (instanceCount s) (take (instanceCount s) (instances s))
           (runExperiment d s)"
  using assms
proof (cases rule: runExperiment_cases [where d = d])
  case (rejected e)
  then show ?thesis
    by (simp add: session_data_def suspend_def engineering_def)
next
  case (aborted optimized e s')
  show ?thesis
  proof (rule session_data_after_loop [where d = d and ?s0.0 = "deliberating d s optimized"])
    show "status (runExperiment d s) = Concluded \<longrightarrow>
        (\<exists>x. loop_while d (instanceCount s) (take (instanceCount s) (instances s))
               (deliberating d s optimized) = Inr x)"
      by (simp add: aborted)
  qed (simp_all add: aborted deliberating_fields final_def)
next
  case (concluded optimized s')
  show ?thesis
    by (rule session_data_after_loop [where d = d and ?s0.0 = "deliberating d s optimized"])
       (simp_all add: concluded deliberating_fields final_def finalizeSynthesis_fields)
qed



lemma session_trace:
  assumes "starts s"
  shows "\<exists>ps qs. trace (runExperiment d s)
            = trace s @ observe Engineering (snd (refinement d s)) (engineering s) # ps @ qs
          \<and> (\<forall>p\<in>set ps. turn_point (instanceCount s) (take (instanceCount s) (instances s)) p)
          \<and> (status (runExperiment d s) = Concluded
               \<and> (\<exists>q. qs = [q] \<and> synth_point (runExperiment d s) q)
             \<or> status (runExperiment d s) \<noteq> Concluded \<and> qs = [])"
  using assms
proof (cases rule: runExperiment_cases [where d = d])
  case (rejected e)
  then show ?thesis by (simp add: suspend_def engineering_def)
next
  case (aborted optimized e s')
  let ?s0 = "deliberating d s optimized"
  have "inv_trace (instanceCount s) (take (instanceCount s) (instances s)) ?s0
          (final (loop_while d (instanceCount s) (take (instanceCount s) (instances s)) ?s0))"
    by (rule loop_while_points) (simp_all add: deliberating_fields)
  then obtain ps where "trace s' = trace ?s0 @ ps"
    "\<forall>p\<in>set ps. turn_point (instanceCount s) (take (instanceCount s) (instances s)) p"
    by (auto simp: inv_trace_def extends_def aborted final_def)
  then show ?thesis
    by (intro exI [of _ ps] exI [of _ "[]"]) (simp add: aborted deliberating_fields)
next
  case (concluded optimized s')
  let ?s0 = "deliberating d s optimized"
  let ?q = "observe Synthesis (snd (synthesisOutcome d (synthesisModel s) s'))
              (s' \<lparr> status := Running, activeInstanceId := Some SYNT \<rparr>)"
  have inv: "inv_trace (instanceCount s) (take (instanceCount s) (instances s)) ?s0
          (final (loop_while d (instanceCount s) (take (instanceCount s) (instances s)) ?s0))"
    by (rule loop_while_points) (simp_all add: deliberating_fields)
  then obtain ps where ps: "trace s' = trace ?s0 @ ps"
    "\<forall>p\<in>set ps. turn_point (instanceCount s) (take (instanceCount s) (instances s)) p"
    by (auto simp: inv_trace_def extends_def concluded final_def)
  from inv have "synth_point (runExperiment d s) ?q"
    by (simp add: synth_point_def observe_def concluded finalizeSynthesis_fields
        inv_trace_def final_def)
  with ps show ?thesis
    by (intro exI [of _ ps] exI [of _ "[?q]"])
       (simp add: concluded deliberating_fields finalizeSynthesis_fields)
qed









section \<open>Sessions\<close>

lemma session_points_cases:
  assumes "starts s" "p \<in> set (session_points s (runExperiment d s))"
  shows "p = observe Engineering (snd (refinement d s)) (engineering s)
       \<or> turn_point (instanceCount s) (take (instanceCount s) (instances s)) p
       \<or> status (runExperiment d s) = Concluded \<and> synth_point (runExperiment d s) p"
proof -
  from session_trace [OF assms(1), of d] obtain ps qs where
    tr: "trace (runExperiment d s)
          = trace s @ observe Engineering (snd (refinement d s)) (engineering s) # ps @ qs"
    and ps: "\<forall>p\<in>set ps. turn_point (instanceCount s) (take (instanceCount s) (instances s)) p"
    and qs: "status (runExperiment d s) = Concluded
               \<and> (\<exists>q. qs = [q] \<and> synth_point (runExperiment d s) q)
             \<or> status (runExperiment d s) \<noteq> Concluded \<and> qs = []"
    by blast
  from assms(2) tr have "p = observe Engineering (snd (refinement d s)) (engineering s)
      \<or> p \<in> set ps \<or> p \<in> set qs"
    by (auto simp: session_points_def)
  with ps qs show ?thesis by auto
qed


subsection \<open>The fixtures\<close>

lemma length_ALL_POTENTIAL_INSTANCES: "length ALL_POTENTIAL_INSTANCES = 50"
  by (simp add: ALL_POTENTIAL_INSTANCES_def)

lemma starts_council4: "starts council4"
  by (simp add: starts_def council4_def initial_def trim_def str_def isWhiteSpace_def
      toLowerCase_def)

lemma council4_fields:
  "instanceCount council4 = 4" "instances council4 = ALL_POTENTIAL_INSTANCES"
  "trace council4 = []" "activeInstanceId council4 = None"
  by (simp_all add: council4_def initial_def)

lemma quiet_steady: "quiet (geminiService gw_steady priorities clock0)"
  unfolding quiet_def
proof (intro conjI allI)
  fix k t
  show "\<exists>opt calls. svc_promptEngineerTopic (geminiService gw_steady priorities clock0) k t
          = (Inr opt, calls)"
    by (simp add: geminiService_def promptEngineerTopic_def gw_steady_def Let_def)
next
  fix k inst t h n
  have "\<not> includes_js (str ''More work is needed.'') terminateSignal"
    by (simp add: terminateSignal_def str_def)
  then show "\<exists>resp calls. svc_getAIResponse (geminiService gw_steady priorities clock0) k inst t h n
          = (Inr resp, calls) \<and> \<not> includes_js (resp_text resp) terminateSignal"
    by (simp add: geminiService_def getAIResponse_def gw_steady_def Let_def text_or_def
        str_def)
qed

lemma session_points_nonempty:
  assumes "starts s"
  shows "session_points s (runExperiment d s) \<noteq> []"
  using session_trace [OF assms, of d] by (auto simp: session_points_def)






subsection \<open>Scheduling\<close>







text \<open>
  C5. At every suspension of a session the transcript is as long as the turn counter
  says, and so it is when the session is over; a turn that completes appends one entry
  and increments the counter by one.
\<close>

theorem transcript_length_is_turn_counter:
  "(starts s \<longrightarrow>
      (\<forall>p \<in> set (session_points s (runExperiment d s)). pt_entries p = pt_turnCount p)
      \<and> length (currentHistoryRef (runExperiment d s)) = turnCountRef (runExperiment d s)
      \<and> history (runExperiment d s) = currentHistoryRef (runExperiment d s))
   \<and> (turn d n inst s1 = Inr (s2, raw) \<longrightarrow>
        length (currentHistoryRef s2) = length (currentHistoryRef s1) + 1
        \<and> turnCountRef s2 = turnCountRef s1 + 1)"
proof (intro conjI impI ballI)
  assume st: "starts s"
  then have dat: "session_data (instanceCount s) (take (instanceCount s) (instances s))
      (runExperiment d s)" by (rule session_data)
  then show "length (currentHistoryRef (runExperiment d s)) = turnCountRef (runExperiment d s)"
    and "history (runExperiment d s) = currentHistoryRef (runExperiment d s)"
    by (simp_all add: session_data_def)
  fix p assume "p \<in> set (session_points s (runExperiment d s))"
  with session_points_cases [OF st, of p d] show "pt_entries p = pt_turnCount p"
    by (auto simp: observe_def engineering_def turn_point_def synth_point_def)
next
  assume t: "turn d n inst s1 = Inr (s2, raw)"
  from turn_Inr_fields(7) [OF t] show "length (currentHistoryRef s2) = length (currentHistoryRef s1) + 1"
    by auto
  from turn_Inr_fields(5) [OF t] show "turnCountRef s2 = turnCountRef s1 + 1" .
qed

theorem transcript_length_is_turn_counter_witness:
  "starts council4
   \<and> length (currentHistoryRef (runExperiment (geminiService gw_steady priorities clock0) council4))
       = turnCountRef (runExperiment (geminiService gw_steady priorities clock0) council4)
   \<and> pt_entries (last (session_points council4
         (runExperiment (geminiService gw_steady priorities clock0) council4)))
       = pt_turnCount (last (session_points council4
         (runExperiment (geminiService gw_steady priorities clock0) council4)))
   \<and> (\<exists>s2 raw. turn (geminiService gw_steady priorities clock0) 4 (potentialInstance 0) council4
                   = Inr (s2, raw)
        \<and> length (currentHistoryRef s2) = 1 \<and> turnCountRef s2 = 1)"
proof -
  let ?d = "geminiService gw_steady priorities clock0"
  from quiet_turn [OF quiet_steady, of 4 "potentialInstance 0" council4]
  obtain s2 raw where t: "turn ?d 4 (potentialInstance 0) council4 = Inr (s2, raw)" by blast
  have z: "currentHistoryRef council4 = []" "turnCountRef council4 = 0"
    by (simp_all add: council4_def initial_def)
  have "last (session_points council4 (runExperiment ?d council4))
      \<in> set (session_points council4 (runExperiment ?d council4))"
    using session_points_nonempty [OF starts_council4, of ?d] by simp
  with transcript_length_is_turn_counter [of council4 ?d 4 "potentialInstance 0" council4 s2 raw]
    starts_council4 t z
  show ?thesis by auto
qed


section \<open>The service\<close>

lemma getAIResponse_eq:
  "getAIResponse gw k instance tp hist n =
     (case gw k 0 (primaryRequest instance tp hist n) of
           Response t g \<Rightarrow>
             (Inr \<lparr> resp_text = text_or t (str ''No analytical response generated.''),
                    resp_grounding = g \<rparr>,
              [(primaryRequest instance tp hist n, Response t g)])
         | Failure msg \<Rightarrow>
             if model instance \<noteq> FALLBACK_MODEL then
               (case gw k 1 (fallbackRequest instance tp hist n) of
                     Response t g \<Rightarrow>
                       (Inr \<lparr> resp_text = text_or t (str ''Node fallback failed.'')
                                            @ str '' (Fallback Node Protocol)'',
                              resp_grounding = None \<rparr>,
                        [(primaryRequest instance tp hist n, Failure msg),
                         (fallbackRequest instance tp hist n, Response t g)])
                   | Failure msg' \<Rightarrow>
                       (Inr \<lparr> resp_text = str ''Protocol failure on node: '' @ name instance,
                              resp_grounding = None \<rparr>,
                        [(primaryRequest instance tp hist n, Failure msg),
                         (fallbackRequest instance tp hist n, Failure msg')]))
             else
               (Inr \<lparr> resp_text = str ''Error: Communication link severed for node ''
                                    @ name instance,
                      resp_grounding = None \<rparr>,
                [(primaryRequest instance tp hist n, Failure msg)]))"
  unfolding getAIResponse_def Let_def primaryRequest_def fallbackRequest_def turnPrompt_def
    turnConfig_def
  by (rule refl)

lemma getAIResponse_total:
  "\<exists>resp calls. getAIResponse gw k inst tp hist n = (Inr resp, calls)"
  by (simp add: getAIResponse_eq split: api_result.splits)

lemma synthesisAttempts_Cons:
  "synthesisAttempts gw k i prompt (m # ms) =
     (if hasText (gw k i (synthesisRequest m prompt))
      then (Inr (text_or (case gw k i (synthesisRequest m prompt) of Response t g \<Rightarrow> t | _ \<Rightarrow> None) [], m),
            [(synthesisRequest m prompt, gw k i (synthesisRequest m prompt))])
      else (fst (synthesisAttempts gw k (i + 1) prompt ms),
            (synthesisRequest m prompt, gw k i (synthesisRequest m prompt))
              # snd (synthesisAttempts gw k (i + 1) prompt ms)))"
  by (simp add: hasText_def synthesisRequest_def Let_def text_or_def
      split: api_result.splits option.splits prod.splits)

lemma synthesisAttempts_Nil:
  "synthesisAttempts gw k i prompt [] =
     (Inl (Error (str ''All available synthesis models failed to respond.'')), [])"
  by simp

declare synthesisAttempts.simps [simp del]

lemma synthesisAttempts_requests:
  "map fst (snd (synthesisAttempts gw k i prompt ms))
     = map (\<lambda>m. synthesisRequest m prompt)
         (take (length (snd (synthesisAttempts gw k i prompt ms))) ms)"
proof (induction ms arbitrary: i)
  case Nil
  show ?case by (simp add: synthesisAttempts_Nil)
next
  case (Cons m ms)
  show ?case
    by (simp only: synthesisAttempts_Cons) (simp add: Cons.IH)
qed

lemma synthesisAttempts_answers:
  "j < length (snd (synthesisAttempts gw k i prompt ms)) \<Longrightarrow>
   snd (snd (synthesisAttempts gw k i prompt ms) ! j)
     = gw k (i + j) (fst (snd (synthesisAttempts gw k i prompt ms) ! j))"
proof (induction ms arbitrary: i j)
  case Nil
  then show ?case by (simp add: synthesisAttempts_Nil)
next
  case (Cons m ms)
  show ?case
  proof (cases "hasText (gw k i (synthesisRequest m prompt))")
    case True
    with Cons.prems show ?thesis by (simp add: synthesisAttempts_Cons)
  next
    case False
    show ?thesis
    proof (cases j)
      case 0
      with False show ?thesis by (simp add: synthesisAttempts_Cons)
    next
      case (Suc j')
      with False Cons.prems have "j' < length (snd (synthesisAttempts gw k (i + 1) prompt ms))"
        by (simp add: synthesisAttempts_Cons)
      from Cons.IH [OF this] False Suc show ?thesis by (simp add: synthesisAttempts_Cons)
    qed
  qed
qed

lemma synthesisAttempts_success:
  assumes "fst (synthesisAttempts gw k i prompt ms) = Inr (t, m)"
  shows "snd (synthesisAttempts gw k i prompt ms) \<noteq> []
       \<and> (\<exists>g. last (snd (synthesisAttempts gw k i prompt ms))
                = (synthesisRequest m prompt, Response (Some t) g))
       \<and> t \<noteq> []
       \<and> (\<forall>c\<in>set (butlast (snd (synthesisAttempts gw k i prompt ms))). \<not> hasText (snd c))"
  using assms
proof (induction ms arbitrary: i)
  case Nil
  then show ?case by (simp add: synthesisAttempts_Nil)
next
  case (Cons m' ms)
  show ?case
  proof (cases "hasText (gw k i (synthesisRequest m' prompt))")
    case True
    with Cons.prems show ?thesis
      by (auto simp: synthesisAttempts_Cons hasText_def text_or_def
          split: api_result.splits option.splits)
  next
    case False
    with Cons.prems have "fst (synthesisAttempts gw k (i + 1) prompt ms) = Inr (t, m)"
      by (simp add: synthesisAttempts_Cons)
    from Cons.IH [OF this] False show ?thesis
      by (auto simp: synthesisAttempts_Cons)
  qed
qed

lemma synthesisAttempts_failure:
  assumes "fst (synthesisAttempts gw k i prompt ms) = Inl e"
  shows "e = Error (str ''All available synthesis models failed to respond.'')
       \<and> length (snd (synthesisAttempts gw k i prompt ms)) = length ms
       \<and> (\<forall>c\<in>set (snd (synthesisAttempts gw k i prompt ms)). \<not> hasText (snd c))"
  using assms
proof (induction ms arbitrary: i)
  case Nil
  then show ?case by (simp add: synthesisAttempts_Nil)
next
  case (Cons m' ms)
  show ?case
  proof (cases "hasText (gw k i (synthesisRequest m' prompt))")
    case True
    with Cons.prems show ?thesis by (simp add: synthesisAttempts_Cons)
  next
    case False
    with Cons.prems have "fst (synthesisAttempts gw k (i + 1) prompt ms) = Inl e"
      by (simp add: synthesisAttempts_Cons)
    from Cons.IH [OF this] False show ?thesis
      by (auto simp: synthesisAttempts_Cons)
  qed
qed

lemma join_js_snoc:
  "xs \<noteq> [] \<Longrightarrow> join_js sep (xs @ [x]) = join_js sep xs @ sep @ x"
  by (induction sep xs rule: join_js.induct) auto

lemma getFinalSynthesis_eq:
  "getFinalSynthesis gw pl k tp hist
     = synthesisAttempts gw k 0
         (SYNTHESIS_PROMPT tp (join_js (str ''\<newline>\<newline>'') (map renderEntry hist))) pl"
  by (simp add: getFinalSynthesis_def Let_def)

lemma synthesisOutcome_geminiService:
  "synthesisOutcome (geminiService gw pl clock) sm s
     = (map_sum (\<lambda>e. e) (\<lambda>(t, m). Result t m)
          (fst (getFinalSynthesis gw pl (length (trace s)) (optimizedTopicRef s)
                  (currentHistoryRef s))),
        snd (getFinalSynthesis gw pl (length (trace s)) (optimizedTopicRef s)
               (currentHistoryRef s)))"
  by (simp add: synthesisOutcome_def geminiService_def split: prod.splits)

lemma SYNTHESIS_PROMPT_text:
  "SYNTHESIS_PROMPT tp ht
     = str ''\<newline>Topic: '' @ tp @ str ''\<newline>History: '' @ ht
         @ str ''\<newline>\<newline>As the final supervisor instance, synthesize the entire deliberation above into the \"Best Possible Response\". \<newline>Be definitive, objective, and comprehensive. Ensure the final result represents the peak of the collective reasoning provided by the instances.\<newline>Format: Start with \"FINAL VERDICT:\" followed by the synthesized conclusion.\<newline>''"
  by (simp add: SYNTHESIS_PROMPT_def str_def)

lemma finalizeSynthesis_calls:
  "pt_calls (last (trace (finalizeSynthesis (geminiService gw pl clock) sm s)))
     = snd (getFinalSynthesis gw pl (length (trace s)) (optimizedTopicRef s)
              (currentHistoryRef s))"
  by (simp add: finalizeSynthesis_fields(5) observe_def synthesisOutcome_geminiService)

text \<open>
  C9. Every request of the synthesis stage carries the same prompt: the text of
  \<open>SYNTHESIS_PROMPT\<close> around the topic and the transcript, the latter rendered as
  \<open>name: content\<close>, joined by two newlines, in the order of the transcript. The candidate
  models are called in the order of the priority list; the first whose answer has a
  non-empty text ends the attempts and gives the result; when none has, every candidate
  has been called. The requests that \<open>finalizeSynthesis\<close> causes are made of the refined
  topic and the whole transcript.
\<close>

theorem synthesis_prompt_and_candidates:
  "(\<forall>c \<in> set (snd (getFinalSynthesis gw pl k tp hist)).
       req_contents (fst c)
         = str ''\<newline>Topic: '' @ tp @ str ''\<newline>History: ''
             @ join_js (str ''\<newline>\<newline>'')
                 (map (\<lambda>h. authorName h @ str '': '' @ content h) hist)
             @ str ''\<newline>\<newline>As the final supervisor instance, synthesize the entire deliberation above into the \"Best Possible Response\". \<newline>Be definitive, objective, and comprehensive. Ensure the final result represents the peak of the collective reasoning provided by the instances.\<newline>Format: Start with \"FINAL VERDICT:\" followed by the synthesized conclusion.\<newline>'')
   \<and> map (\<lambda>c. req_model (fst c)) (snd (getFinalSynthesis gw pl k tp hist))
       = take (length (snd (getFinalSynthesis gw pl k tp hist))) pl
   \<and> (\<forall>j < length (snd (getFinalSynthesis gw pl k tp hist)).
         snd (snd (getFinalSynthesis gw pl k tp hist) ! j)
           = gw k j (fst (snd (getFinalSynthesis gw pl k tp hist) ! j)))
   \<and> (\<forall>t m. fst (getFinalSynthesis gw pl k tp hist) = Inr (t, m) \<longrightarrow>
         t \<noteq> [] \<and> snd (getFinalSynthesis gw pl k tp hist) \<noteq> []
         \<and> req_model (fst (last (snd (getFinalSynthesis gw pl k tp hist)))) = m
         \<and> (\<exists>g. snd (last (snd (getFinalSynthesis gw pl k tp hist))) = Response (Some t) g)
         \<and> (\<forall>c \<in> set (butlast (snd (getFinalSynthesis gw pl k tp hist))). \<not> hasText (snd c)))
   \<and> (\<forall>e. fst (getFinalSynthesis gw pl k tp hist) = Inl e \<longrightarrow>
         length (snd (getFinalSynthesis gw pl k tp hist)) = length pl
         \<and> (\<forall>c \<in> set (snd (getFinalSynthesis gw pl k tp hist)). \<not> hasText (snd c)))
   \<and> (hist \<noteq> [] \<longrightarrow>
         join_js (str ''\<newline>\<newline>'') (map (\<lambda>h. authorName h @ str '': '' @ content h) (hist @ [x]))
           = join_js (str ''\<newline>\<newline>'') (map (\<lambda>h. authorName h @ str '': '' @ content h) hist)
               @ str ''\<newline>\<newline>'' @ authorName x @ str '': '' @ content x)
   \<and> (\<forall>c \<in> set (pt_calls (last (trace (finalizeSynthesis (geminiService gw pl clock) sm s)))).
         req_contents (fst c)
           = str ''\<newline>Topic: '' @ optimizedTopicRef s @ str ''\<newline>History: ''
               @ join_js (str ''\<newline>\<newline>'')
                   (map (\<lambda>h. authorName h @ str '': '' @ content h) (currentHistoryRef s))
               @ str ''\<newline>\<newline>As the final supervisor instance, synthesize the entire deliberation above into the \"Best Possible Response\". \<newline>Be definitive, objective, and comprehensive. Ensure the final result represents the peak of the collective reasoning provided by the instances.\<newline>Format: Start with \"FINAL VERDICT:\" followed by the synthesized conclusion.\<newline>'')"
proof -
  let ?text = "\<lambda>tp hist. str ''\<newline>Topic: '' @ tp @ str ''\<newline>History: ''
             @ join_js (str ''\<newline>\<newline>'') (map renderEntry hist)
             @ str ''\<newline>\<newline>As the final supervisor instance, synthesize the entire deliberation above into the \"Best Possible Response\". \<newline>Be definitive, objective, and comprehensive. Ensure the final result represents the peak of the collective reasoning provided by the instances.\<newline>Format: Start with \"FINAL VERDICT:\" followed by the synthesized conclusion.\<newline>''"
  let ?prompt = "SYNTHESIS_PROMPT tp (join_js (str ''\<newline>\<newline>'') (map renderEntry hist))"
  let ?o = "synthesisAttempts gw k 0 ?prompt pl"
  have re: "renderEntry = (\<lambda>h. authorName h @ str '': '' @ content h)"
    by (rule ext) (simp add: renderEntry_def)
  have eq: "getFinalSynthesis gw pl k tp hist = ?o" by (rule getFinalSynthesis_eq)
  have rq: "map fst (snd ?o) = map (\<lambda>m. synthesisRequest m ?prompt) (take (length (snd ?o)) pl)"
    by (rule synthesisAttempts_requests)
  have c: "req_contents (fst c) = ?text tp' hist'"
    if "c \<in> set (snd (getFinalSynthesis gw pl k' tp' hist'))" for c k' tp' hist'
  proof -
    let ?p = "SYNTHESIS_PROMPT tp' (join_js (str ''\<newline>\<newline>'') (map renderEntry hist'))"
    let ?a = "synthesisAttempts gw k' 0 ?p pl"
    from that have "fst c \<in> set (map fst (snd ?a))" by (simp add: getFinalSynthesis_eq)
    also have "map fst (snd ?a) = map (\<lambda>m. synthesisRequest m ?p) (take (length (snd ?a)) pl)"
      by (rule synthesisAttempts_requests)
    finally have "req_contents (fst c) = ?p" by (auto simp: synthesisRequest_def)
    then show ?thesis by (simp only: SYNTHESIS_PROMPT_text)
  qed
  have 1: "\<forall>c \<in> set (snd ?o). req_contents (fst c) = ?text tp hist"
    using c [of _ k tp hist] by (simp only: eq) blast
  have "map req_model (map fst (snd ?o)) = take (length (snd ?o)) pl"
    unfolding rq by (simp add: synthesisRequest_def comp_def)
  then have 2: "map (\<lambda>c. req_model (fst c)) (snd ?o) = take (length (snd ?o)) pl"
    by (simp add: comp_def)
  have 3: "\<forall>j < length (snd ?o). snd (snd ?o ! j) = gw k j (fst (snd ?o ! j))"
    using synthesisAttempts_answers [of _ gw k 0 ?prompt pl] by simp
  have 4: "t \<noteq> [] \<and> snd ?o \<noteq> [] \<and> req_model (fst (last (snd ?o))) = m
         \<and> (\<exists>g. snd (last (snd ?o)) = Response (Some t) g)
         \<and> (\<forall>c \<in> set (butlast (snd ?o)). \<not> hasText (snd c))"
    if "fst ?o = Inr (t, m)" for t m
    using synthesisAttempts_success [OF that] by (auto simp: synthesisRequest_def)
  have 5: "length (snd ?o) = length pl \<and> (\<forall>c \<in> set (snd ?o). \<not> hasText (snd c))"
    if "fst ?o = Inl e" for e
    using synthesisAttempts_failure [OF that] by simp
  have 6: "join_js (str ''\<newline>\<newline>'') (map renderEntry (hist @ [x]))
           = join_js (str ''\<newline>\<newline>'') (map renderEntry hist)
               @ str ''\<newline>\<newline>'' @ renderEntry x" if "hist \<noteq> []"
    using that join_js_snoc [of "map renderEntry hist"] by simp
  have 7: "\<forall>c \<in> set (pt_calls (last (trace (finalizeSynthesis (geminiService gw pl clock) sm s)))).
         req_contents (fst c) = ?text (optimizedTopicRef s) (currentHistoryRef s)"
    using c [of _ "length (trace s)" "optimizedTopicRef s" "currentHistoryRef s"]
    by (simp only: finalizeSynthesis_calls) blast
  from 1 2 3 4 5 6 7 show ?thesis
    unfolding eq re [symmetric] by (simp add: renderEntry_def)
qed

lemma second_candidate:
  "getFinalSynthesis gw_second priorities 0 (str ''Go nuclear?'') twoEntries
     = (Inr (str ''FINAL VERDICT: yes'', str ''gemini-3-flash-preview''),
        [(synthesisRequest (str ''gemini-3-pro-preview'')
            (SYNTHESIS_PROMPT (str ''Go nuclear?'')
               (join_js (str ''\<newline>\<newline>'') (map renderEntry twoEntries))),
          Failure (str ''503'')),
         (synthesisRequest (str ''gemini-3-flash-preview'')
            (SYNTHESIS_PROMPT (str ''Go nuclear?'')
               (join_js (str ''\<newline>\<newline>'') (map renderEntry twoEntries))),
          Response (Some (str ''FINAL VERDICT: yes'')) None)])"
proof -
  have ne: "str ''FINAL VERDICT: yes'' \<noteq> []" by (simp add: str_def)
  then show ?thesis
    by (simp add: getFinalSynthesis_eq priorities_def synthesisAttempts_Cons
        synthesisAttempts_Nil gw_second_def hasText_def text_or_def)
qed

lemma twoEntries_text:
  "join_js (str ''\<newline>\<newline>'') (map (\<lambda>h. authorName h @ str '': '' @ content h) twoEntries)
     = str ''INSTANCE_01: Yes.\<newline>\<newline>INSTANCE_02: No.''"
  by (simp add: twoEntries_def str_def)

theorem synthesis_prompt_and_candidates_witness:
  "fst (getFinalSynthesis gw_second priorities 0 (str ''Go nuclear?'') twoEntries)
     = Inr (str ''FINAL VERDICT: yes'', str ''gemini-3-flash-preview'')
   \<and> map (\<lambda>c. req_model (fst c))
         (snd (getFinalSynthesis gw_second priorities 0 (str ''Go nuclear?'') twoEntries))
       = priorities
   \<and> req_contents (fst (hd (snd (getFinalSynthesis gw_second priorities 0 (str ''Go nuclear?'')
         twoEntries))))
       = str ''\<newline>Topic: Go nuclear?\<newline>History: INSTANCE_01: Yes.\<newline>\<newline>INSTANCE_02: No.\<newline>\<newline>As the final supervisor instance, synthesize the entire deliberation above into the \"Best Possible Response\". \<newline>Be definitive, objective, and comprehensive. Ensure the final result represents the peak of the collective reasoning provided by the instances.\<newline>Format: Start with \"FINAL VERDICT:\" followed by the synthesized conclusion.\<newline>''
   \<and> \<not> hasText (snd (hd (snd (getFinalSynthesis gw_second priorities 0 (str ''Go nuclear?'')
         twoEntries))))"
proof -
  let ?o = "getFinalSynthesis gw_second priorities 0 (str ''Go nuclear?'') twoEntries"
  note facts = synthesis_prompt_and_candidates [of gw_second priorities 0 "str ''Go nuclear?''"
      twoEntries]
  have f: "fst ?o = Inr (str ''FINAL VERDICT: yes'', str ''gemini-3-flash-preview'')"
    by (simp add: second_candidate)
  have len: "length (snd ?o) = 2" by (simp add: second_candidate)
  then have hd_in: "hd (snd ?o) \<in> set (snd ?o)" "hd (snd ?o) \<in> set (butlast (snd ?o))"
    by (simp_all add: second_candidate)
  from facts len have a: "map (\<lambda>c. req_model (fst c)) (snd ?o) = priorities"
    by (simp add: priorities_def)
  from facts hd_in(1) have "req_contents (fst (hd (snd ?o)))
      = str ''\<newline>Topic: '' @ str ''Go nuclear?'' @ str ''\<newline>History: ''
          @ join_js (str ''\<newline>\<newline>'')
              (map (\<lambda>h. authorName h @ str '': '' @ content h) twoEntries)
          @ str ''\<newline>\<newline>As the final supervisor instance, synthesize the entire deliberation above into the \"Best Possible Response\". \<newline>Be definitive, objective, and comprehensive. Ensure the final result represents the peak of the collective reasoning provided by the instances.\<newline>Format: Start with \"FINAL VERDICT:\" followed by the synthesized conclusion.\<newline>''"
    by blast
  then have b: "req_contents (fst (hd (snd ?o)))
      = str ''\<newline>Topic: Go nuclear?\<newline>History: INSTANCE_01: Yes.\<newline>\<newline>INSTANCE_02: No.\<newline>\<newline>As the final supervisor instance, synthesize the entire deliberation above into the \"Best Possible Response\". \<newline>Be definitive, objective, and comprehensive. Ensure the final result represents the peak of the collective reasoning provided by the instances.\<newline>Format: Start with \"FINAL VERDICT:\" followed by the synthesized conclusion.\<newline>''"
    by (simp only: twoEntries_text) (simp add: str_def)
  from facts f hd_in(2) have c: "\<not> hasText (snd (hd (snd ?o)))" by blast
  from f a b c show ?thesis by simp
qed

lemma promptEngineerTopic_total:
  "\<exists>opt calls. promptEngineerTopic gw k t = (Inr opt, calls)"
  by (simp add: promptEngineerTopic_def Let_def split: api_result.splits)

lemma loop_while_total:
  assumes "\<And>k inst t h n. \<exists>resp calls. svc_getAIResponse d k inst t h n = (Inr resp, calls)"
    and "0 < n" "n \<le> length roster"
  shows "\<exists>s'. loop_while d n roster s = Inr s'"
proof (rule loop_while_rule [where I = "\<lambda>s. True"])
  show True ..
next
  fix s1 :: app and inst e s'
  assume "turn d n inst s1 = Inl (e, s')"
  moreover from assms(1) obtain resp calls where
    "svc_getAIResponse d (length (trace s1)) inst (optimizedTopicRef s1) (currentHistoryRef s1) n
      = (Inr resp, calls)" by blast
  ultimately show "\<exists>s''. Inl (e, s') = Inr s''" by (simp add: turn_def Let_def)
next
  fix s1 :: app
  assume "activeAt roster n (turnCountRef s1) = None"
  with activeAt_Some [OF assms(2,3)] show "\<exists>s''. Inl (TypeError, s1) = Inr s''" by simp
qed simp_all

lemma session_concludes:
  assumes "starts s"
    and "\<And>k t. \<exists>opt calls. svc_promptEngineerTopic d k t = (Inr opt, calls)"
    and "\<And>k inst t h n. \<exists>resp calls. svc_getAIResponse d k inst t h n = (Inr resp, calls)"
    and "0 < instanceCount s" "instanceCount s \<le> length (instances s)"
  shows "status (runExperiment d s) = Concluded"
    and "\<exists>v. verdict (runExperiment d s) = Some v"
    and "activeInstanceId (runExperiment d s) = None"
    and "\<not> isRunningRef (runExperiment d s)"
proof -
  have lw: "\<exists>x. loop_while d (instanceCount s) (take (instanceCount s) (instances s)) s0 = Inr x"
    for s0 using assms(3-5) by (intro loop_while_total) simp_all
  from assms(2) have ref: "\<exists>opt. fst (refinement d s) = Inr opt"
    unfolding refinement_def by (metis fst_conv)
  from assms(1) have "\<exists>s'. runExperiment d s = finalizeSynthesis d (synthesisModel s) s'"
  proof (cases rule: runExperiment_cases [where d = d])
    case (rejected e)
    with ref show ?thesis by simp
  next
    case (aborted optimized e s')
    with lw [of "deliberating d s optimized"] show ?thesis by simp
  next
    case (concluded optimized s')
    then show ?thesis by blast
  qed
  then obtain s' where run: "runExperiment d s = finalizeSynthesis d (synthesisModel s) s'" ..
  show "status (runExperiment d s) = Concluded" by (simp add: run finalizeSynthesis_fields)
  show "\<exists>v. verdict (runExperiment d s) = Some v" by (simp add: run finalizeSynthesis_fields)
  show "activeInstanceId (runExperiment d s) = None" by (simp add: run finalizeSynthesis_fields)
  show "\<not> isRunningRef (runExperiment d s)" by (simp add: run finalizeSynthesis_fields)
qed

lemma geminiService_concludes:
  assumes "starts s" "0 < instanceCount s" "instanceCount s \<le> length (instances s)"
  shows "status (runExperiment (geminiService gw pl clock) s) = Concluded"
    and "\<exists>v. verdict (runExperiment (geminiService gw pl clock) s) = Some v"
    and "activeInstanceId (runExperiment (geminiService gw pl clock) s) = None"
    and "\<not> isRunningRef (runExperiment (geminiService gw pl clock) s)"
proof -
  have a: "\<exists>opt calls. svc_promptEngineerTopic (geminiService gw pl clock) k t = (Inr opt, calls)"
    for k t using promptEngineerTopic_total [of gw k t] by (simp add: geminiService_def)
  have b: "\<exists>resp calls. svc_getAIResponse (geminiService gw pl clock) k inst t h n
      = (Inr resp, calls)" for k inst t h n
    using getAIResponse_total [of gw k inst t h n] by (simp add: geminiService_def)
  show "status (runExperiment (geminiService gw pl clock) s) = Concluded"
    using assms a b by (intro session_concludes(1)) auto
  show "\<exists>v. verdict (runExperiment (geminiService gw pl clock) s) = Some v"
    using assms a b by (intro session_concludes(2)) auto
  show "activeInstanceId (runExperiment (geminiService gw pl clock) s) = None"
    using assms a b by (intro session_concludes(3)) auto
  show "\<not> isRunningRef (runExperiment (geminiService gw pl clock) s)"
    using assms a b by (intro session_concludes(4)) auto
qed

text \<open>
  C6. \<open>getAIResponse\<close> never rejects. Its first call goes to the model assigned to the
  instance, with the search tool. When that call fails and the model is not the fallback
  model, exactly one more call is made: to the fallback model, with the same prompt and
  no tool; its text, or a failure marker naming the node when it fails too, is the
  answer. When the first call fails and the instance is on the fallback model, no second
  call is made and the answer is a failure marker. Every turn therefore appends an
  entry, and a session with this service always reaches the synthesis and concludes.
\<close>

theorem fallback_policy:
  "(\<exists>resp. fst (getAIResponse gw k inst tp hist n) = Inr resp)
   \<and> snd (getAIResponse gw k inst tp hist n) \<noteq> []
   \<and> (\<forall>j < length (snd (getAIResponse gw k inst tp hist n)).
         snd (snd (getAIResponse gw k inst tp hist n) ! j)
           = gw k j (fst (snd (getAIResponse gw k inst tp hist n) ! j)))
   \<and> req_model (fst (hd (snd (getAIResponse gw k inst tp hist n)))) = model inst
   \<and> map_option tools (req_config (fst (hd (snd (getAIResponse gw k inst tp hist n)))))
       = Some (Some [GoogleSearch])
   \<and> (\<forall>t g. snd (hd (snd (getAIResponse gw k inst tp hist n))) = Response t g \<longrightarrow>
         length (snd (getAIResponse gw k inst tp hist n)) = 1
         \<and> fst (getAIResponse gw k inst tp hist n)
             = Inr \<lparr> resp_text = text_or t (str ''No analytical response generated.''),
                     resp_grounding = g \<rparr>)
   \<and> (\<forall>msg. snd (hd (snd (getAIResponse gw k inst tp hist n))) = Failure msg
            \<and> model inst \<noteq> FALLBACK_MODEL \<longrightarrow>
         length (snd (getAIResponse gw k inst tp hist n)) = 2
         \<and> req_model (fst (snd (getAIResponse gw k inst tp hist n) ! 1)) = FALLBACK_MODEL
         \<and> req_contents (fst (snd (getAIResponse gw k inst tp hist n) ! 1))
             = req_contents (fst (hd (snd (getAIResponse gw k inst tp hist n))))
         \<and> map_option tools (req_config (fst (snd (getAIResponse gw k inst tp hist n) ! 1)))
             = Some (Some [])
         \<and> (\<forall>t g. snd (snd (getAIResponse gw k inst tp hist n) ! 1) = Response t g \<longrightarrow>
               fst (getAIResponse gw k inst tp hist n)
                 = Inr \<lparr> resp_text = text_or t (str ''Node fallback failed.'')
                                        @ str '' (Fallback Node Protocol)'',
                         resp_grounding = None \<rparr>)
         \<and> (\<forall>msg'. snd (snd (getAIResponse gw k inst tp hist n) ! 1) = Failure msg' \<longrightarrow>
               fst (getAIResponse gw k inst tp hist n)
                 = Inr \<lparr> resp_text = str ''Protocol failure on node: '' @ name inst,
                         resp_grounding = None \<rparr>))
   \<and> (\<forall>msg. snd (hd (snd (getAIResponse gw k inst tp hist n))) = Failure msg
            \<and> model inst = FALLBACK_MODEL \<longrightarrow>
         length (snd (getAIResponse gw k inst tp hist n)) = 1
         \<and> fst (getAIResponse gw k inst tp hist n)
             = Inr \<lparr> resp_text = str ''Error: Communication link severed for node ''
                                    @ name inst,
                     resp_grounding = None \<rparr>)
   \<and> (\<exists>s' resp. turn (geminiService gw pl clock) n inst s = Inr (s', resp_text resp)
         \<and> fst (getAIResponse gw (length (trace s)) inst (optimizedTopicRef s)
                  (currentHistoryRef s) n) = Inr resp
         \<and> length (currentHistoryRef s') = length (currentHistoryRef s) + 1
         \<and> content (last (currentHistoryRef s')) = cleanResponse (resp_text resp)
         \<and> authorName (last (currentHistoryRef s')) = name inst)
   \<and> (starts s \<and> 2 \<le> instanceCount s \<and> instanceCount s \<le> 20
        \<and> instanceCount s \<le> length (instances s) \<longrightarrow>
        status (runExperiment (geminiService gw pl clock) s) = Concluded)"
proof -
  let ?o = "getAIResponse gw k inst tp hist n"
  let ?p = "primaryRequest inst tp hist n" and ?f = "fallbackRequest inst tp hist n"
  have calls: "(\<exists>resp. fst ?o = Inr resp) \<and> snd ?o \<noteq> []
     \<and> (\<forall>j < length (snd ?o). snd (snd ?o ! j) = gw k j (fst (snd ?o ! j)))
     \<and> fst (hd (snd ?o)) = ?p
     \<and> (\<forall>t g. snd (hd (snd ?o)) = Response t g \<longrightarrow>
         length (snd ?o) = 1
         \<and> fst ?o = Inr \<lparr> resp_text = text_or t (str ''No analytical response generated.''),
                     resp_grounding = g \<rparr>)
     \<and> (\<forall>msg. snd (hd (snd ?o)) = Failure msg \<and> model inst \<noteq> FALLBACK_MODEL \<longrightarrow>
         length (snd ?o) = 2 \<and> fst (snd ?o ! 1) = ?f
         \<and> (\<forall>t g. snd (snd ?o ! 1) = Response t g \<longrightarrow>
               fst ?o = Inr \<lparr> resp_text = text_or t (str ''Node fallback failed.'')
                                        @ str '' (Fallback Node Protocol)'',
                         resp_grounding = None \<rparr>)
         \<and> (\<forall>msg'. snd (snd ?o ! 1) = Failure msg' \<longrightarrow>
               fst ?o = Inr \<lparr> resp_text = str ''Protocol failure on node: '' @ name inst,
                         resp_grounding = None \<rparr>))
     \<and> (\<forall>msg. snd (hd (snd ?o)) = Failure msg \<and> model inst = FALLBACK_MODEL \<longrightarrow>
         length (snd ?o) = 1
         \<and> fst ?o = Inr \<lparr> resp_text = str ''Error: Communication link severed for node ''
                                    @ name inst,
                     resp_grounding = None \<rparr>)"
  proof (cases "gw k 0 ?p")
    case (Response t g)
    then show ?thesis by (simp add: getAIResponse_eq)
  next
    case primary: (Failure msg)
    show ?thesis
    proof (cases "model inst = FALLBACK_MODEL")
      case True
      with primary show ?thesis by (simp add: getAIResponse_eq)
    next
      case False
      show ?thesis
      proof (cases "gw k 1 ?f")
        case (Response t g)
        with primary False show ?thesis by (simp add: getAIResponse_eq less_Suc_eq)
      next
        case (Failure msg')
        with primary False show ?thesis by (simp add: getAIResponse_eq less_Suc_eq)
      qed
    qed
  qed
  have rq: "req_model ?p = model inst" "map_option tools (req_config ?p) = Some (Some [GoogleSearch])"
    "req_model ?f = FALLBACK_MODEL" "req_contents ?f = req_contents ?p"
    "map_option tools (req_config ?f) = Some (Some [])"
    by (simp_all add: primaryRequest_def fallbackRequest_def turnConfig_def)
  let ?d = "geminiService gw pl clock"
  obtain resp cs where r: "getAIResponse gw (length (trace s)) inst (optimizedTopicRef s)
      (currentHistoryRef s) n = (Inr resp, cs)"
    using getAIResponse_total by blast
  then obtain s' where t: "turn ?d n inst s = Inr (s', resp_text resp)"
    by (simp add: turn_def geminiService_def Let_def)
  note fr = turn_Inr_fields [OF t]
  from fr(7) obtain resp' where
    h: "currentHistoryRef s' = currentHistoryRef s @ [newEntry ?d inst resp' (Suc (length (trace s)))]"
    and "resp_text resp = resp_text resp'" by blast
  then have trn: "\<exists>s' resp. turn ?d n inst s = Inr (s', resp_text resp)
         \<and> fst (getAIResponse gw (length (trace s)) inst (optimizedTopicRef s)
                  (currentHistoryRef s) n) = Inr resp
         \<and> length (currentHistoryRef s') = length (currentHistoryRef s) + 1
         \<and> content (last (currentHistoryRef s')) = cleanResponse (resp_text resp)
         \<and> authorName (last (currentHistoryRef s')) = name inst"
    using t r by (intro exI [of _ s'] exI [of _ resp]) (simp add: newEntry_def)
  have ses: "status (runExperiment ?d s) = Concluded"
    if "starts s \<and> 2 \<le> instanceCount s \<and> instanceCount s \<le> 20
        \<and> instanceCount s \<le> length (instances s)"
    using that by (intro geminiService_concludes(1)) simp_all
  from calls rq trn ses show ?thesis by simp
qed

lemma proInstance_fields:
  "model proInstance \<noteq> FALLBACK_MODEL" "name proInstance = str ''INSTANCE_01''"
  "model (potentialInstance 0) = FALLBACK_MODEL" "name (potentialInstance 0) = str ''INSTANCE_01''"
  by (simp_all add: proInstance_def potentialInstance_def FALLBACK_MODEL_def str_def padStart_def)

theorem fallback_policy_witness:
  "length (snd (getAIResponse gw_down 1 proInstance (str ''Go nuclear?'') [] 4)) = 2
   \<and> req_model (fst (snd (getAIResponse gw_down 1 proInstance (str ''Go nuclear?'') [] 4) ! 1))
       = FALLBACK_MODEL
   \<and> map_option tools
        (req_config (fst (snd (getAIResponse gw_down 1 proInstance (str ''Go nuclear?'') [] 4) ! 1)))
       = Some (Some [])
   \<and> fst (getAIResponse gw_down 1 proInstance (str ''Go nuclear?'') [] 4)
       = Inr \<lparr> resp_text = str ''Protocol failure on node: INSTANCE_01'', resp_grounding = None \<rparr>
   \<and> length (snd (getAIResponse gw_down 1 (potentialInstance 0) (str ''Go nuclear?'') [] 4)) = 1
   \<and> fst (getAIResponse gw_down 1 (potentialInstance 0) (str ''Go nuclear?'') [] 4)
       = Inr \<lparr> resp_text = str ''Error: Communication link severed for node INSTANCE_01'',
               resp_grounding = None \<rparr>
   \<and> status (runExperiment (geminiService gw_down priorities clock0) council4) = Concluded"
proof -
  let ?a = "getAIResponse gw_down 1 proInstance (str ''Go nuclear?'') [] 4"
  let ?b = "getAIResponse gw_down 1 (potentialInstance 0) (str ''Go nuclear?'') [] 4"
  note pa = fallback_policy [of gw_down 1 proInstance "str ''Go nuclear?''" "[]" 4
      priorities clock0 council4]
  note pb = fallback_policy [of gw_down 1 "potentialInstance 0" "str ''Go nuclear?''" "[]" 4
      priorities clock0 council4]
  have cat: "str ''Protocol failure on node: '' @ str ''INSTANCE_01''
      = str ''Protocol failure on node: INSTANCE_01''"
    "str ''Error: Communication link severed for node '' @ str ''INSTANCE_01''
      = str ''Error: Communication link severed for node INSTANCE_01''"
    by (simp_all add: str_def)
  from pa have a0: "snd ?a \<noteq> []"
    and a1: "\<forall>j < length (snd ?a). snd (snd ?a ! j) = gw_down 1 j (fst (snd ?a ! j))"
    by blast+
  from a0 a1 have "snd (snd ?a ! 0) = Failure (str ''503'')" by (simp add: gw_down_def)
  with a0 have ha: "snd (hd (snd ?a)) = Failure (str ''503'')" by (simp add: hd_conv_nth)
  with pa proInstance_fields(1) have a2: "length (snd ?a) = 2"
    and a3: "req_model (fst (snd ?a ! 1)) = FALLBACK_MODEL"
    and a4: "map_option tools (req_config (fst (snd ?a ! 1))) = Some (Some [])"
    and a5: "\<forall>msg'. snd (snd ?a ! 1) = Failure msg' \<longrightarrow>
               fst ?a = Inr \<lparr> resp_text = str ''Protocol failure on node: '' @ name proInstance,
                         resp_grounding = None \<rparr>"
    by blast+
  from a1 a2 have "snd (snd ?a ! 1) = Failure (str ''503'')" by (simp add: gw_down_def)
  with a5 have a6: "fst ?a = Inr \<lparr> resp_text = str ''Protocol failure on node: INSTANCE_01'',
      resp_grounding = None \<rparr>"
    by (simp add: proInstance_fields cat)
  from pb have b0: "snd ?b \<noteq> []"
    and b1: "\<forall>j < length (snd ?b). snd (snd ?b ! j) = gw_down 1 j (fst (snd ?b ! j))"
    by blast+
  from b0 b1 have "snd (snd ?b ! 0) = Failure (str ''503'')" by (simp add: gw_down_def)
  with b0 have hb: "snd (hd (snd ?b)) = Failure (str ''503'')" by (simp add: hd_conv_nth)
  with pb proInstance_fields(3) have b2: "length (snd ?b) = 1"
    and b3: "fst ?b = Inr \<lparr> resp_text = str ''Error: Communication link severed for node ''
                                    @ name (potentialInstance 0),
                     resp_grounding = None \<rparr>"
    by blast+
  from b3 have b4: "fst ?b = Inr \<lparr> resp_text
      = str ''Error: Communication link severed for node INSTANCE_01'', resp_grounding = None \<rparr>"
    by (simp add: proInstance_fields cat)
  from pa starts_council4
  have c: "status (runExperiment (geminiService gw_down priorities clock0) council4) = Concluded"
    by (simp add: council4_fields length_ALL_POTENTIAL_INSTANCES)
  from a2 a3 a4 a6 b2 b4 c show ?thesis by simp
qed

lemma no_text_fails:
  assumes "\<forall>c \<in> set (snd (getFinalSynthesis gw pl k tp hist)). \<not> hasText (snd c)"
  shows "\<exists>e. fst (getFinalSynthesis gw pl k tp hist) = Inl e"
proof (cases "fst (getFinalSynthesis gw pl k tp hist)")
  case (Inl e)
  then show ?thesis by blast
next
  case (Inr tm)
  then obtain t m where "fst (getFinalSynthesis gw pl k tp hist) = Inr (t, m)" by (cases tm) auto
  then have "fst (synthesisAttempts gw k 0
         (SYNTHESIS_PROMPT tp (join_js (str ''\<newline>\<newline>'') (map renderEntry hist))) pl) = Inr (t, m)"
    by (simp add: getFinalSynthesis_eq)
  from synthesisAttempts_success [OF this]
  obtain g where ne: "snd (getFinalSynthesis gw pl k tp hist) \<noteq> []"
    and l: "snd (last (snd (getFinalSynthesis gw pl k tp hist))) = Response (Some t) g" and "t \<noteq> []"
    by (auto simp: getFinalSynthesis_eq)
  then have "hasText (snd (last (snd (getFinalSynthesis gw pl k tp hist))))"
    by (simp add: hasText_def)
  moreover from ne have "last (snd (getFinalSynthesis gw pl k tp hist))
      \<in> set (snd (getFinalSynthesis gw pl k tp hist))" by simp
  ultimately show ?thesis using assms by blast
qed

text \<open>
  C7. Whatever the synthesis await yields, \<open>finalizeSynthesis\<close> leaves the session
  concluded, with a verdict, no active instance and the running flag lowered; during the
  await the status is running. A result is the verdict; a rejection gives the verdict
  \<^verbatim>\<open>"Critical error during synthesis phase."\<close>, which is what happens with the
  priority list when no candidate answers with a text. A session with this service always
  concludes with a verdict.
\<close>

theorem synthesis_always_concludes:
  "status (finalizeSynthesis d sm s) = Concluded
   \<and> (\<exists>v. verdict (finalizeSynthesis d sm s) = Some v)
   \<and> activeInstanceId (finalizeSynthesis d sm s) = None
   \<and> \<not> isRunningRef (finalizeSynthesis d sm s)
   \<and> pt_phase (last (trace (finalizeSynthesis d sm s))) = Synthesis
   \<and> pt_status (last (trace (finalizeSynthesis d sm s))) = Running
   \<and> (\<forall>v. fst (synthesisOutcome d sm s) = Inr v \<longrightarrow>
         verdict (finalizeSynthesis d sm s) = Some v)
   \<and> (\<forall>e. fst (synthesisOutcome d sm s) = Inl e \<longrightarrow>
         verdict (finalizeSynthesis d sm s)
           = Some (Plain (str ''Critical error during synthesis phase.'')))
   \<and> ((\<forall>c \<in> set (snd (getFinalSynthesis gw pl (length (trace s)) (optimizedTopicRef s)
                          (currentHistoryRef s))). \<not> hasText (snd c)) \<longrightarrow>
        verdict (finalizeSynthesis (geminiService gw pl clock) sm s)
          = Some (Plain (str ''Critical error during synthesis phase.'')))
   \<and> (\<forall>t m. fst (getFinalSynthesis gw pl (length (trace s)) (optimizedTopicRef s)
                   (currentHistoryRef s)) = Inr (t, m) \<longrightarrow>
        verdict (finalizeSynthesis (geminiService gw pl clock) sm s) = Some (Result t m))
   \<and> (starts s0 \<and> 2 \<le> instanceCount s0 \<and> instanceCount s0 \<le> 20
        \<and> instanceCount s0 \<le> length (instances s0) \<longrightarrow>
        status (runExperiment (geminiService gw pl clock) s0) = Concluded
        \<and> (\<exists>v. verdict (runExperiment (geminiService gw pl clock) s0) = Some v)
        \<and> \<not> isRunningRef (runExperiment (geminiService gw pl clock) s0))"
proof -
  let ?g = "getFinalSynthesis gw pl (length (trace s)) (optimizedTopicRef s) (currentHistoryRef s)"
  note f = finalizeSynthesis_fields [of d sm s]
  have 1: "pt_phase (last (trace (finalizeSynthesis d sm s))) = Synthesis"
    "pt_status (last (trace (finalizeSynthesis d sm s))) = Running"
    by (simp_all add: f(5) observe_def)
  have 2: "verdict (finalizeSynthesis d sm s) = Some v" if "fst (synthesisOutcome d sm s) = Inr v"
    for v using that by (simp add: f(2))
  have 3: "verdict (finalizeSynthesis d sm s)
      = Some (Plain (str ''Critical error during synthesis phase.''))"
    if "fst (synthesisOutcome d sm s) = Inl e" for e using that by (simp add: f(2))
  have 4: "verdict (finalizeSynthesis (geminiService gw pl clock) sm s)
          = Some (Plain (str ''Critical error during synthesis phase.''))"
    if "\<forall>c \<in> set (snd ?g). \<not> hasText (snd c)"
  proof -
    from that obtain e where "fst ?g = Inl e" using no_text_fails by blast
    then show ?thesis
      by (simp add: finalizeSynthesis_fields(2) synthesisOutcome_geminiService)
  qed
  have 5: "verdict (finalizeSynthesis (geminiService gw pl clock) sm s) = Some (Result t m)"
    if "fst ?g = Inr (t, m)" for t m
    using that by (simp add: finalizeSynthesis_fields(2) synthesisOutcome_geminiService)
  have 6: "status (runExperiment (geminiService gw pl clock) s0) = Concluded
        \<and> (\<exists>v. verdict (runExperiment (geminiService gw pl clock) s0) = Some v)
        \<and> \<not> isRunningRef (runExperiment (geminiService gw pl clock) s0)"
    if "starts s0 \<and> 2 \<le> instanceCount s0 \<and> instanceCount s0 \<le> 20
        \<and> instanceCount s0 \<le> length (instances s0)"
    using that geminiService_concludes [of s0 gw pl clock] by simp
  from f(1,2,3,4) 1 2 3 4 5 6 show ?thesis by simp
qed

lemma all_down:
  "getFinalSynthesis gw_down priorities 0 [] []
     = (Inl (Error (str ''All available synthesis models failed to respond.'')),
        [(synthesisRequest (str ''gemini-3-pro-preview'')
            (SYNTHESIS_PROMPT [] (join_js (str ''\<newline>\<newline>'') (map renderEntry []))),
          Failure (str ''503'')),
         (synthesisRequest (str ''gemini-3-flash-preview'')
            (SYNTHESIS_PROMPT [] (join_js (str ''\<newline>\<newline>'') (map renderEntry []))),
          Failure (str ''503''))])"
  by (simp add: getFinalSynthesis_eq priorities_def synthesisAttempts_Cons
        synthesisAttempts_Nil gw_down_def hasText_def)

theorem synthesis_always_concludes_witness:
  "status (finalizeSynthesis (geminiService gw_down priorities clock0) (str ''gemini-3-pro-preview'')
             council4) = Concluded
   \<and> verdict (finalizeSynthesis (geminiService gw_down priorities clock0)
                (str ''gemini-3-pro-preview'') council4)
       = Some (Plain (str ''Critical error during synthesis phase.''))
   \<and> status (runExperiment (geminiService gw_down priorities clock0) council4) = Concluded
   \<and> \<not> isRunningRef (runExperiment (geminiService gw_down priorities clock0) council4)"
proof -
  have z: "trace council4 = []" "optimizedTopicRef council4 = []" "currentHistoryRef council4 = []"
    by (simp_all add: council4_def initial_def)
  have "\<forall>c \<in> set (snd (getFinalSynthesis gw_down priorities (length (trace council4))
      (optimizedTopicRef council4) (currentHistoryRef council4))). \<not> hasText (snd c)"
    by (simp add: z all_down hasText_def)
  with synthesis_always_concludes [of "geminiService gw_down priorities clock0"
      "str ''gemini-3-pro-preview''" council4 gw_down priorities clock0 council4]
    starts_council4
  show ?thesis by (simp add: council4_fields length_ALL_POTENTIAL_INSTANCES)
qed


section \<open>The state machine\<close>






declare toString_nat.simps [simp del]














end
